theory Spec2Isabelle
  imports Main
begin

section \<open>The locator rebinder of the RPF console manager\<close>

text \<open>
  The functions embedded here are the ones of \<^verbatim>\<open>rpf.ConsoleManager\<close> that rebind a
  step's element locator and propagate it to the steps that shared the old primary xpath:
  \<^verbatim>\<open>updateElement_\<close>, \<^verbatim>\<open>updateElementInTest_\<close>, \<^verbatim>\<open>updateElementAtLine_\<close>,
  \<^verbatim>\<open>showElementsAfterProjectUpdated_\<close>, \<^verbatim>\<open>showElementsWithSameXpath_\<close>,
  \<^verbatim>\<open>registerEventsOnSameElements_\<close>, \<^verbatim>\<open>handleReplaceButton_\<close>,
  \<^verbatim>\<open>handleCancelButton_\<close>, \<^verbatim>\<open>getStepsWithSameXpath_\<close> and
  \<^verbatim>\<open>getStepsFromInfoMap_\<close>.

  JavaScript objects are typed after the data model of the InfoMap. A property read on
  \<^verbatim>\<open>undefined\<close> raises a \<^verbatim>\<open>TypeError\<close>; that is the only exception these functions can
  raise, and it is a value of the model. Mutation of \<^verbatim>\<open>this\<close> is explicit state passing.
  A name cannot end in an underscore here: the private members are written without
  their trailing underscore, and a field \<^verbatim>\<open>this.x_\<close> is \<open>this_x\<close>.
\<close>

subsection \<open>Data model\<close>

datatype js_error = TypeError

text \<open>Opaque JSON payloads (selectors, descriptor, iframeInfo and the like).\<close>

datatype json =
  JUndefined
| JNull
| JBool bool
| JNum int
| JStr string
| JArr "json list"
| JObj "(string \<times> json) list"

text \<open>
  The four fields that \<^verbatim>\<open>updateElement_\<close> copies. The command map of the recorder
  (\<^verbatim>\<open>cmdMap\<close>) is read at exactly these four fields; an element record carries them
  and whatever else the encoder stored (\<open>otherFields\<close>).
\<close>

record locator =
  selectors :: json
  xpaths :: "string list"
  descriptor :: json
  iframeInfo :: json

type_synonym cmdMap = locator

record elem = locator +
  otherFields :: "(string \<times> json) list"

text \<open>
  A step record: \<^verbatim>\<open>{stepName, elemId}\<close>, the element id being optional. A match, as
  pushed by \<^verbatim>\<open>getStepsFromInfoMap_\<close>, is
  \<^verbatim>\<open>{'testName': testName, 'stepName': ..., 'elemId': elemId}\<close>.
\<close>

record stepRecord =
  stepName :: string
  elemId :: "string option"

record match = stepRecord +
  testName :: string

text \<open>
  \<^verbatim>\<open>infoMap['steps']\<close> is enumerated by \<^verbatim>\<open>for (var step in steps)\<close>: its own properties
  are an association list in enumeration order, read by key with \<open>map_of\<close>. The own
  properties of \<^verbatim>\<open>infoMap['elems']\<close> are only read and written by key. The initial \<^verbatim>\<open>{}\<close> of \<^verbatim>\<open>this.infoMap_\<close> (and the \<^verbatim>\<open>{}\<close> of
  \<^verbatim>\<open>this.infoMap_ || {}\<close>) is the InfoMap with no step and no element: the functions
  below behave the same on both (the search finds nothing, the update raises).
\<close>

record infoMap =
  steps :: "(string \<times> stepRecord) list"
  elems :: "string \<rightharpoonup> elem"

text \<open>
  Modelled from the spec: \<^verbatim>\<open>rpf.Tests\<close> (\<^verbatim>\<open>getTests\<close>, \<^verbatim>\<open>getLoadFrom\<close>,
  \<^verbatim>\<open>setTests\<close>, \<^verbatim>\<open>setLoadFrom\<close>, \<^verbatim>\<open>setDetails\<close>, \<^verbatim>\<open>getInfoMapByTest\<close>,
  \<^verbatim>\<open>saveInfoMapToTest\<close>), \<^verbatim>\<open>bite.base.Helper.getTestObject\<close> and
  \<^verbatim>\<open>bite.console.Helper.trimInfoMap\<close> are not among the sources. A Test has a name, a
  script and an InfoMap; decoding a test's datafile is a pure function and the datafile
  encoder and decoder are a round-trip pair, so a test is held decoded. A Project is a
  list of tests with its load origin and details.
\<close>

record test =
  name :: string
  script :: string
  infoMap :: infoMap

record project =
  tests :: "test list"
  loadFrom :: string
  details :: json

record response =
  resp_tests :: "test list"
  resp_details :: json

definition LOCAL :: string where
  "LOCAL = ''local''"

definition WEB :: string where
  "WEB = ''web''"

text \<open>
  Functions that the console manager receives from outside (the \<^verbatim>\<open>callback\<close> of
  \<^verbatim>\<open>updateElementAtLine_\<close>, the \<^verbatim>\<open>onCancelHandler\<close> of the confirmation surface) are
  identified by a number; calling one is recorded in the state's \<open>calls\<close>.
\<close>

type_synonym fn = nat

datatype html = ShowElementsWithSameXpath "match list" string

datatype bound_fn =
  RegisterEventsOnSameElements cmdMap
| HandleReplaceButton cmdMap fn
| HandleCancelButton fn
| ShowElementsAfterProjectUpdated fn cmdMap "string option"

datatype ui_call =
  Callback fn bound_fn html
| OnCancelHandler fn

datatype message =
  GET_TEST_NAMES_LOCALLY string bound_fn
| SAVE_PROJECT_LOCALLY string "test list"

datatype listener = Listen string bound_fn

record checkbox =
  checked :: bool
  "value" :: string

record cm_state =
  this_projectInfo :: "project option"
  this_infoMap :: infoMap
  projectName :: string
  this_testName :: string
  this_updateAllHandler :: "listener list"
  sent :: "message list"
  calls :: "ui_call list"

subsection \<open>JavaScript property access\<close>

text \<open>A property key is a string; \<^verbatim>\<open>obj[undefined]\<close> reads the property \<^verbatim>\<open>'undefined'\<close>.\<close>

definition js_key :: "string option \<Rightarrow> string" where
  "js_key k = (case k of None \<Rightarrow> ''undefined'' | Some s \<Rightarrow> s)"

text \<open>\<^verbatim>\<open>xs[0]\<close> on an array: \<^verbatim>\<open>undefined\<close> when the array is empty.\<close>

definition index0 :: "'a list \<Rightarrow> 'a option" where
  "index0 xs = (case xs of [] \<Rightarrow> None | x # _ \<Rightarrow> Some x)"

text \<open>
  The objects of an InfoMap (\<^verbatim>\<open>infoMap['steps']\<close>, \<^verbatim>\<open>infoMap['elems']\<close>) are plain objects: a
  property read that finds no own property goes on to \<^verbatim>\<open>Object.prototype\<close>. Each name
  found there gives a function (for \<^verbatim>\<open>__proto__\<close>, the prototype object itself): a value
  that is truthy and has neither an \<^verbatim>\<open>elemId\<close> nor an \<^verbatim>\<open>xpaths\<close> property. A read is
  therefore an own value, an inherited one, or \<^verbatim>\<open>undefined\<close>. The own properties of
  \<^verbatim>\<open>steps\<close> and \<^verbatim>\<open>elems\<close> are the step and element records of the data model.
\<close>

definition objectPrototype :: "string list" where
  "objectPrototype =
     [''constructor'', ''toString'', ''toLocaleString'', ''valueOf'', ''hasOwnProperty'',
      ''isPrototypeOf'', ''propertyIsEnumerable'', ''__proto__'', ''__defineGetter__'',
      ''__defineSetter__'', ''__lookupGetter__'', ''__lookupSetter__'']"

datatype 'a property = Absent | Inherited | Own 'a

definition js_get :: "(string \<rightharpoonup> 'a) \<Rightarrow> string \<Rightarrow> 'a property" where
  "js_get obj k =
     (case obj k of
        Some v \<Rightarrow> Own v
      | None \<Rightarrow> if k \<in> set objectPrototype then Inherited else Absent)"

text \<open>
  \<^verbatim>\<open>steps[stepId]['elemId']\<close>: a raise on \<^verbatim>\<open>undefined\<close>, \<^verbatim>\<open>undefined\<close> on an inherited
  value, the step's element id on a step record.
\<close>

definition read_elemId :: "stepRecord property \<Rightarrow> js_error + string option" where
  "read_elemId p =
     (case p of Absent \<Rightarrow> Inl TypeError | Inherited \<Rightarrow> Inr None | Own st \<Rightarrow> Inr (elemId st))"

text \<open>
  \<^verbatim>\<open>value.split('___')\<close>: the pieces between the successive leftmost occurrences of the
  separator. There is always a first piece; the others are returned as a list, so that
  \<^verbatim>\<open>nameAndStep[0]\<close> is the first component and \<^verbatim>\<open>nameAndStep[1]\<close> is \<open>index0\<close> of the
  second. The first argument accumulates the current piece, reversed.
\<close>

fun split_sep :: "string \<Rightarrow> string \<Rightarrow> string \<times> string list" where
  "split_sep acc [] = (rev acc, [])"
| "split_sep acc (c # cs) =
     (if take 3 (c # cs) = ''___''
      then (rev acc, (case split_sep [] (drop 3 (c # cs)) of (p, ps) \<Rightarrow> p # ps))
      else split_sep (c # acc) cs)"

subsection \<open>The search\<close>

text \<open>
  \<^verbatim>\<open>
  for (var step in steps) {
    var elemId = steps[step]['elemId'];
    var elem = elems[elemId];
    if (elem && elem['xpaths'][0] == oldXpath) {
      allSteps.push({'testName': testName, 'stepName': steps[step]['stepName'],
                     'elemId': elemId});
    }
  }
  \<close>
  The loop enumerates the own properties of \<^verbatim>\<open>steps\<close>. When \<^verbatim>\<open>elems[elemId]\<close> is an
  inherited value, \<^verbatim>\<open>elem\<close> is truthy, \<^verbatim>\<open>elem['xpaths']\<close> is \<^verbatim>\<open>undefined\<close> and the read of
  its \<^verbatim>\<open>[0]\<close> raises: the search ends with the exception. The old xpath is a string or
  \<^verbatim>\<open>undefined\<close> (it is \<^verbatim>\<open>elem['xpaths'][0]\<close> of the element just updated); on such values
  \<^verbatim>\<open>==\<close> is equality.
\<close>

fun getStepsFromInfoMap_loop ::
  "string \<Rightarrow> (string \<rightharpoonup> elem) \<Rightarrow> string option \<Rightarrow> (string \<times> stepRecord) list \<Rightarrow>
   match list \<Rightarrow> js_error + match list" where
  "getStepsFromInfoMap_loop tn es oldXpath [] allSteps = Inr allSteps"
| "getStepsFromInfoMap_loop tn es oldXpath ((step, st) # rest) allSteps =
     (let eid = elemId st in
      case js_get es (js_key eid) of
        Absent \<Rightarrow> getStepsFromInfoMap_loop tn es oldXpath rest allSteps
      | Inherited \<Rightarrow> Inl TypeError
      | Own el \<Rightarrow>
          if index0 (xpaths el) = oldXpath
          then getStepsFromInfoMap_loop tn es oldXpath rest
                 (allSteps @ [\<lparr>stepName = stepName st, elemId = eid, testName = tn\<rparr>])
          else getStepsFromInfoMap_loop tn es oldXpath rest allSteps)"

definition getStepsFromInfoMap ::
  "string \<Rightarrow> infoMap \<Rightarrow> string option \<Rightarrow> js_error + match list option" where
  "getStepsFromInfoMap tn im oldXpath =
     (case getStepsFromInfoMap_loop tn (elems im) oldXpath (steps im) [] of
        Inl e \<Rightarrow> Inl e
      | Inr allSteps \<Rightarrow> if length allSteps = 0 then Inr None else Inr (Some allSteps))"

fun getStepsWithSameXpath_loop ::
  "string option \<Rightarrow> test list \<Rightarrow> match list \<Rightarrow> js_error + match list" where
  "getStepsWithSameXpath_loop oldXpath [] allSteps = Inr allSteps"
| "getStepsWithSameXpath_loop oldXpath (t # ts) allSteps =
     (case getStepsFromInfoMap (name t) (infoMap t) oldXpath of
        Inl e \<Rightarrow> Inl e
      | Inr None \<Rightarrow> getStepsWithSameXpath_loop oldXpath ts allSteps
      | Inr (Some stepsOfTest) \<Rightarrow>
          getStepsWithSameXpath_loop oldXpath ts (allSteps @ stepsOfTest))"

text \<open>\<^verbatim>\<open>this.projectInfo_.getTests()\<close> on a missing project info raises.\<close>

definition getStepsWithSameXpath ::
  "cm_state \<Rightarrow> string option \<Rightarrow> js_error + match list option" where
  "getStepsWithSameXpath s oldXpath =
     (case this_projectInfo s of
        None \<Rightarrow> Inl TypeError
      | Some p \<Rightarrow>
          (case getStepsWithSameXpath_loop oldXpath (tests p) [] of
             Inl e \<Rightarrow> Inl e
           | Inr allSteps \<Rightarrow> if length allSteps = 0 then Inr None else Inr (Some allSteps)))"

subsection \<open>The update\<close>

text \<open>
  \<^verbatim>\<open>
  var elemId = originalInfoMap['steps'][stepId]['elemId'];
  var elem = originalInfoMap['elems'][elemId];
  var oldXpath = elem['xpaths'][0];
  elem['selectors'] = cmdMap['selectors'];
  elem['xpaths'] = cmdMap['xpaths'];
  elem['descriptor'] = cmdMap['descriptor'];
  elem['iframeInfo'] = cmdMap['iframeInfo'];
  return oldXpath;
  \<close>
  The reads that can hit \<^verbatim>\<open>undefined\<close> (\<^verbatim>\<open>steps[stepId]['elemId']\<close> when \<^verbatim>\<open>steps\<close> has
  no such property, own or inherited; \<^verbatim>\<open>elem['xpaths']\<close> when \<^verbatim>\<open>elems\<close> has none;
  \<^verbatim>\<open>elem['xpaths'][0]\<close> when \<^verbatim>\<open>elem\<close> is an inherited value) come before the first
  assignment, so a raise leaves the InfoMap as it was. A step id that names an inherited
  property reads no \<^verbatim>\<open>elemId\<close>, and the element read is \<^verbatim>\<open>elems['undefined']\<close>. The
  result is the old xpath with the mutated InfoMap.
\<close>

definition updateElement ::
  "string option \<Rightarrow> cmdMap \<Rightarrow> infoMap \<Rightarrow> js_error + (string option \<times> infoMap)" where
  "updateElement stepId cmdMap originalInfoMap =
     (case read_elemId (js_get (map_of (steps originalInfoMap)) (js_key stepId)) of
        Inl e \<Rightarrow> Inl e
      | Inr eid \<Rightarrow>
          (case js_get (elems originalInfoMap) (js_key eid) of
             Absent \<Rightarrow> Inl TypeError
           | Inherited \<Rightarrow> Inl TypeError
           | Own el \<Rightarrow>
               (let oldXpath = index0 (xpaths el);
                    el' = el\<lparr>selectors := selectors cmdMap,
                             xpaths := xpaths cmdMap,
                             descriptor := descriptor cmdMap,
                             iframeInfo := iframeInfo cmdMap\<rparr>
                in Inr (oldXpath,
                     originalInfoMap\<lparr>elems := (elems originalInfoMap)(js_key eid \<mapsto> el')\<rparr>))))"

text \<open>
  Modelled from the spec: \<^verbatim>\<open>rpf.Tests.getInfoMapByTest\<close> and
  \<^verbatim>\<open>rpf.Tests.saveInfoMapToTest\<close> are not among the sources. The InfoMap of a test is
  loaded by the test's name (the first test of that name; none when the project has no
  such test) and written back to that same test.
\<close>

definition getInfoMapByTest :: "project \<Rightarrow> string \<Rightarrow> infoMap option" where
  "getInfoMapByTest p tn =
     (case find (\<lambda>t. name t = tn) (tests p) of None \<Rightarrow> None | Some t \<Rightarrow> Some (infoMap t))"

fun saveInfoMapToTests :: "test list \<Rightarrow> string \<Rightarrow> infoMap \<Rightarrow> test list" where
  "saveInfoMapToTests [] tn im = []"
| "saveInfoMapToTests (t # ts) tn im =
     (if name t = tn then t\<lparr>infoMap := im\<rparr> # ts else t # saveInfoMapToTests ts tn im)"

definition saveInfoMapToTest :: "project \<Rightarrow> string \<Rightarrow> infoMap \<Rightarrow> project" where
  "saveInfoMapToTest p tn im = p\<lparr>tests := saveInfoMapToTests (tests p) tn im\<rparr>"

text \<open>
  \<^verbatim>\<open>
  var originalInfoMap = this.projectInfo_.getInfoMapByTest(testName);
  this.updateElement_(stepId, cmdMap, originalInfoMap);
  this.projectInfo_.saveInfoMapToTest(testName, originalInfoMap);
  \<close>
  With no InfoMap for the name, \<^verbatim>\<open>updateElement_\<close> reads \<^verbatim>\<open>['steps']\<close> of nothing and
  raises. Nothing is written before a raise.
\<close>

definition updateElementInTest ::
  "string \<Rightarrow> string option \<Rightarrow> cmdMap \<Rightarrow> cm_state \<Rightarrow> js_error + cm_state" where
  "updateElementInTest tn stepId cmdMap s =
     (case this_projectInfo s of
        None \<Rightarrow> Inl TypeError
      | Some p \<Rightarrow>
          (case getInfoMapByTest p tn of
             None \<Rightarrow> Inl TypeError
           | Some originalInfoMap \<Rightarrow>
               (case updateElement stepId cmdMap originalInfoMap of
                  Inl e \<Rightarrow> Inl e
                | Inr (oldXpath, im') \<Rightarrow>
                    Inr (s\<lparr>this_projectInfo := Some (saveInfoMapToTest p tn im')\<rparr>))))"

text \<open>
  \<^verbatim>\<open>this.projectInfo_ && this.projectInfo_.getLoadFrom() == rpf.ConsoleManager.LOCAL_\<close>
\<close>

definition isLocal :: "cm_state \<Rightarrow> bool" where
  "isLocal s = (case this_projectInfo s of None \<Rightarrow> False | Some p \<Rightarrow> loadFrom p = LOCAL)"

subsection \<open>The confirmation handlers\<close>

text \<open>
  \<^verbatim>\<open>
  onCancelHandler();
  this.updateAllHandler_.removeAll();
  \<close>
\<close>

definition handleCancelButton :: "fn \<Rightarrow> cm_state \<Rightarrow> cm_state" where
  "handleCancelButton onCancelHandler s =
     s\<lparr>calls := calls s @ [OnCancelHandler onCancelHandler],
       this_updateAllHandler := []\<rparr>"

definition registerEventsOnSameElements :: "cmdMap \<Rightarrow> fn \<Rightarrow> cm_state \<Rightarrow> cm_state" where
  "registerEventsOnSameElements newCmdMap onCancelHandler s =
     s\<lparr>this_updateAllHandler := this_updateAllHandler s @
         [Listen ''replaceAllXpaths'' (HandleReplaceButton newCmdMap onCancelHandler),
          Listen ''cancelReplaceXpaths'' (HandleCancelButton onCancelHandler)]\<rparr>"

text \<open>
  The body of the loop of \<^verbatim>\<open>handleReplaceButton_\<close> for one checked box:
  \<^verbatim>\<open>
  var nameAndStep = selectedSteps[i].value.split('___');
  if (this.projectInfo_ && this.projectInfo_.getLoadFrom() == rpf.ConsoleManager.LOCAL_) {
    this.updateElementInTest_(nameAndStep[0], nameAndStep[1], newCmdMap);
  } else {
    this.updateElement_(nameAndStep[1], newCmdMap, this.infoMap_ || {});
  }
  \<close>
\<close>

definition replaceSelected :: "cmdMap \<Rightarrow> string \<Rightarrow> cm_state \<Rightarrow> js_error + cm_state" where
  "replaceSelected newCmdMap v s =
     (let nameAndStep = split_sep [] v in
      if isLocal s
      then updateElementInTest (fst nameAndStep) (index0 (snd nameAndStep)) newCmdMap s
      else (case updateElement (index0 (snd nameAndStep)) newCmdMap (this_infoMap s) of
              Inl e \<Rightarrow> Inl e
            | Inr (oldXpath, im') \<Rightarrow> Inr (s\<lparr>this_infoMap := im'\<rparr>)))"

text \<open>
  The loop over the boxes named \<^verbatim>\<open>selectedSteps\<close> of the document. A raise leaves the
  loop with the updates made so far: the result is the exception, if any, and the state.
\<close>

fun handleReplaceButton_loop ::
  "cmdMap \<Rightarrow> checkbox list \<Rightarrow> cm_state \<Rightarrow> js_error option \<times> cm_state" where
  "handleReplaceButton_loop newCmdMap [] s = (None, s)"
| "handleReplaceButton_loop newCmdMap (b # bs) s =
     (if checked b
      then (case replaceSelected newCmdMap (value b) s of
              Inl e \<Rightarrow> (Some e, s)
            | Inr s' \<Rightarrow> handleReplaceButton_loop newCmdMap bs s')
      else handleReplaceButton_loop newCmdMap bs s)"

text \<open>
  After the loop:
  \<^verbatim>\<open>
  if (this.projectInfo_ && this.projectInfo_.getLoadFrom() == rpf.ConsoleManager.LOCAL_) {
    this.messenger_.sendMessage(
        {'command': Bite.Constants.CONSOLE_CMDS.SAVE_PROJECT_LOCALLY,
         'params': {'project': {'name': this.loaderDialog_.getProjectName(),
                                'tests': this.projectInfo_.getTests()}}});
  }
  this.handleCancelButton_(onCancelHandler);
  \<close>
  The first argument after the two bound ones is the list of the boxes named
  \<^verbatim>\<open>selectedSteps\<close> that the handler reads from the document.
\<close>

definition handleReplaceButton ::
  "cmdMap \<Rightarrow> fn \<Rightarrow> checkbox list \<Rightarrow> cm_state \<Rightarrow> js_error option \<times> cm_state" where
  "handleReplaceButton newCmdMap onCancelHandler selectedSteps s =
     (case handleReplaceButton_loop newCmdMap selectedSteps s of
        (Some e, s') \<Rightarrow> (Some e, s')
      | (None, s') \<Rightarrow>
          (let s'' =
             (case this_projectInfo s' of
                None \<Rightarrow> s'
              | Some p \<Rightarrow>
                  if loadFrom p = LOCAL
                  then s'\<lparr>sent := sent s' @ [SAVE_PROJECT_LOCALLY (projectName s') (tests p)]\<rparr>
                  else s')
           in (None, handleCancelButton onCancelHandler s'')))"

subsection \<open>Opening the confirmation surface\<close>

text \<open>
  \<^verbatim>\<open>
  if (!data) { return; }
  var html = element.helper.Templates.locatorsUpdater.
      showElementsWithSameXpath({'data': data, 'loadFrom': loadFrom});
  callback(goog.bind(this.registerEventsOnSameElements_, this, cmdMap), html);
  \<close>
  The template is not among the sources: the html is kept as the template's arguments.
\<close>

definition showElementsWithSameXpath ::
  "match list option \<Rightarrow> string \<Rightarrow> fn \<Rightarrow> cmdMap \<Rightarrow> cm_state \<Rightarrow> cm_state" where
  "showElementsWithSameXpath data lf callback cmdMap s =
     (case data of
        None \<Rightarrow> s
      | Some d \<Rightarrow>
          s\<lparr>calls := calls s @
              [Callback callback (RegisterEventsOnSameElements cmdMap)
                 (ShowElementsWithSameXpath d lf)]\<rparr>)"

definition setProjectInfo ::
  "test list \<Rightarrow> string \<Rightarrow> json \<Rightarrow> cm_state \<Rightarrow> js_error + cm_state" where
  "setProjectInfo ts lf opt_details s =
     (case this_projectInfo s of
        None \<Rightarrow> Inl TypeError
      | Some p \<Rightarrow>
          Inr (s\<lparr>this_projectInfo :=
                  Some (p\<lparr>tests := ts, loadFrom := lf, details := opt_details\<rparr>)\<rparr>))"

text \<open>
  \<^verbatim>\<open>
  this.setProjectInfo(response['tests'], rpf.ConsoleManager.LOCAL_, response['details']);
  var data = this.getStepsWithSameXpath_(oldXpath);
  this.showElementsWithSameXpath_(data, rpf.ConsoleManager.LOCAL_, callback, cmdMap);
  \<close>
  A raise of the search comes after the project info has been set: the result is the
  exception, if any, and the state.
\<close>

definition showElementsAfterProjectUpdated ::
  "fn \<Rightarrow> cmdMap \<Rightarrow> string option \<Rightarrow> response \<Rightarrow> cm_state \<Rightarrow> js_error option \<times> cm_state" where
  "showElementsAfterProjectUpdated callback cmdMap oldXpath resp s =
     (case setProjectInfo (resp_tests resp) LOCAL (resp_details resp) s of
        Inl e \<Rightarrow> (Some e, s)
      | Inr s' \<Rightarrow>
          (case getStepsWithSameXpath s' oldXpath of
             Inl e \<Rightarrow> (Some e, s')
           | Inr data \<Rightarrow> (None, showElementsWithSameXpath data LOCAL callback cmdMap s')))"

text \<open>
  \<^verbatim>\<open>
  var lineContent = this.editorMngr_.getTextAtLine(line);
  var stepId = bite.base.Helper.getStepId(lineContent);
  var oldXpath = this.updateElement_(stepId, cmdMap, this.infoMap_ || {});
  if (this.projectInfo_ && this.projectInfo_.getLoadFrom() == rpf.ConsoleManager.LOCAL_) {
    this.messenger_.sendMessage(
        {'command': Bite.Constants.CONSOLE_CMDS.GET_TEST_NAMES_LOCALLY,
         'params': {'project': this.loaderDialog_.getProjectName()}},
        goog.bind(this.showElementsAfterProjectUpdated_, this, callback, cmdMap, oldXpath));
  } else {
    var data = this.getStepsFromInfoMap_(this.getTestName_(), this.infoMap_, oldXpath);
    this.showElementsWithSameXpath_(data, rpf.ConsoleManager.WEB_, callback, cmdMap);
  }
  \<close>
  The editor's \<^verbatim>\<open>getTextAtLine\<close> and \<^verbatim>\<open>bite.base.Helper.getStepId\<close> are not among the
  sources: they are parameters. A raise of \<^verbatim>\<open>updateElement_\<close> comes before any mutation;
  a raise of the search comes after the element has been rewritten. The result is the
  exception, if any, and the state.
\<close>

definition updateElementAtLine ::
  "(int \<Rightarrow> string) \<Rightarrow> (string \<Rightarrow> string) \<Rightarrow> int \<Rightarrow> cmdMap \<Rightarrow> fn \<Rightarrow> cm_state \<Rightarrow>
   js_error option \<times> cm_state" where
  "updateElementAtLine getTextAtLine getStepId line cmdMap callback s =
     (let lineContent = getTextAtLine line;
          stepId = getStepId lineContent
      in case updateElement (Some stepId) cmdMap (this_infoMap s) of
           Inl e \<Rightarrow> (Some e, s)
         | Inr (oldXpath, im') \<Rightarrow>
             (let s1 = s\<lparr>this_infoMap := im'\<rparr> in
              if isLocal s1
              then (None, s1\<lparr>sent := sent s1 @
                          [GET_TEST_NAMES_LOCALLY (projectName s1)
                             (ShowElementsAfterProjectUpdated callback cmdMap oldXpath)]\<rparr>)
              else (case getStepsFromInfoMap (this_testName s1) (this_infoMap s1) oldXpath of
                      Inl e \<Rightarrow> (Some e, s1)
                    | Inr data \<Rightarrow>
                        (None, showElementsWithSameXpath data WEB callback cmdMap s1))))"

section \<open>Properties\<close>

subsection \<open>The search, as the specification words it\<close>

text \<open>
  For each test in scope, for each step of its InfoMap in step order: a step qualifies
  when its \<open>elemId\<close> is set and resolves to an element record of the same InfoMap whose
  primary xpath is the old xpath; a step whose \<open>elemId\<close> is not set or does not resolve is
  left out. The matches are concatenated in project order, and an empty result is
  signalled as absent.
\<close>

definition absentIfEmpty :: "'a list \<Rightarrow> 'a list option" where
  "absentIfEmpty xs = (if xs = [] then None else Some xs)"

definition qualifies :: "infoMap \<Rightarrow> string option \<Rightarrow> stepRecord \<Rightarrow> bool" where
  "qualifies im X st =
     (case elemId st of
        None \<Rightarrow> False
      | Some e \<Rightarrow> (case elems im e of None \<Rightarrow> False | Some el \<Rightarrow> index0 (xpaths el) = X))"

definition matchesOfTest :: "string \<Rightarrow> infoMap \<Rightarrow> string option \<Rightarrow> match list" where
  "matchesOfTest tn im X =
     map (\<lambda>(k, st). \<lparr>stepName = stepName st, elemId = elemId st, testName = tn\<rparr>)
       (filter (\<lambda>(k, st). qualifies im X st) (steps im))"

definition matchesOfProject :: "test list \<Rightarrow> string option \<Rightarrow> match list" where
  "matchesOfProject ts X = concat (map (\<lambda>t. matchesOfTest (name t) (infoMap t) X) ts)"

text \<open>
  Where the program's reads leave the data model: \<open>searchRaises im\<close> says that some step
  of \<open>im\<close> has an element id that is no element of \<open>im\<close> but a name inherited from
  \<^verbatim>\<open>Object.prototype\<close>; \<open>wellKeyed im\<close> says that there is no such step, and that no step
  without an element id meets an element stored under the key \<open>undefined\<close>.
\<close>

definition searchRaises :: "infoMap \<Rightarrow> bool" where
  "searchRaises im =
     list_ex (\<lambda>(k, st). js_get (elems im) (js_key (elemId st)) = Inherited) (steps im)"

definition wellKeyed :: "infoMap \<Rightarrow> bool" where
  "wellKeyed im \<longleftrightarrow>
     \<not> searchRaises im \<and>
     \<not> (elems im ''undefined'' \<noteq> None \<and> list_ex (\<lambda>(k, st). elemId st = None) (steps im))"

subsection \<open>Notions for the update\<close>

text \<open>
  \<open>overwritten cm el\<close> is \<open>el\<close> with the four locator fields of \<open>cm\<close>; \<open>targetOf im stepId\<close>
  is the key of \<open>elems\<close> that \<^verbatim>\<open>updateElement_\<close> reads for a step id (the step's element
  id for a step of the InfoMap, \<open>undefined\<close> for a step without one and for a step id
  that only names an inherited property, none when the read of the step raises); a step
  id resolves when that key holds an element record. \<open>rebound cm T im im'\<close>: the steps are the same and
  every element is the same, except that an element under a key of \<open>T\<close> may have been
  overwritten with \<open>cm\<close>. \<open>nameAndStep0\<close> and \<open>nameAndStep1\<close> are the two entries that the
  replace handler reads of a box's split value; \<open>resolves s v\<close> says that the box value
  \<open>v\<close> names a step and an element that exist in the InfoMap the handler would update.
  A selected match is a checked box: the handler knows a match only by the box's value,
  which it splits at \<open>___\<close> into a test name and a step id. \<open>dataOf s\<close> is the part of
  the state that holds element records: the project and the open InfoMap.
\<close>

definition overwritten :: "cmdMap \<Rightarrow> elem \<Rightarrow> elem" where
  "overwritten cm el =
     el\<lparr>selectors := selectors cm, xpaths := xpaths cm,
        descriptor := descriptor cm, iframeInfo := iframeInfo cm\<rparr>"

definition targetOf :: "infoMap \<Rightarrow> string option \<Rightarrow> string option" where
  "targetOf im stepId =
     (case read_elemId (js_get (map_of (steps im)) (js_key stepId)) of
        Inl e \<Rightarrow> None
      | Inr eid \<Rightarrow> Some (js_key eid))"

definition resolvesIn :: "infoMap \<Rightarrow> string option \<Rightarrow> bool" where
  "resolvesIn im stepId =
     (case targetOf im stepId of None \<Rightarrow> False | Some k \<Rightarrow> elems im k \<noteq> None)"

definition rebound :: "cmdMap \<Rightarrow> string set \<Rightarrow> infoMap \<Rightarrow> infoMap \<Rightarrow> bool" where
  "rebound cm T im im' \<longleftrightarrow>
     steps im' = steps im \<and>
     (\<forall>k. elems im' k = elems im k \<or>
          (k \<in> T \<and> (\<exists>e. elems im k = Some e \<and> elems im' k = Some (overwritten cm e))))"

definition nameAndStep0 :: "string \<Rightarrow> string" where
  "nameAndStep0 v = fst (split_sep [] v)"

definition nameAndStep1 :: "string \<Rightarrow> string option" where
  "nameAndStep1 v = index0 (snd (split_sep [] v))"

definition resolves :: "cm_state \<Rightarrow> string \<Rightarrow> bool" where
  "resolves s v =
     (if isLocal s
      then (case this_projectInfo s of
              None \<Rightarrow> False
            | Some p \<Rightarrow>
                (case getInfoMapByTest p (nameAndStep0 v) of
                   None \<Rightarrow> False
                 | Some im \<Rightarrow> resolvesIn im (nameAndStep1 v)))
      else resolvesIn (this_infoMap s) (nameAndStep1 v))"

definition dataOf :: "cm_state \<Rightarrow> project option \<times> infoMap" where
  "dataOf s = (this_projectInfo s, this_infoMap s)"

text \<open>
  \<open>targets im stepIds\<close> are the element keys that the step ids of a list reach in an
  InfoMap; \<open>checkedSteps\<close> are the step ids of the checked boxes and \<open>checkedStepsOf tn\<close>
  those of the checked boxes that name the test \<open>tn\<close>. \<open>stateRebound cm boxes s s'\<close> is the
  frame of a run of the replace handler: the open InfoMap is \<open>rebound\<close> on the targets of
  the checked boxes, and the project, if any, keeps its origin, its details, the number,
  order, names and scripts of its tests, each test's InfoMap being \<open>rebound\<close> on the
  targets of the checked boxes that name the test. \<open>infoMapFor s v\<close> is the InfoMap that
  the handler updates for the box value \<open>v\<close>: the one of the named test of a LOCAL
  project, else the open one. \<open>saveRequest s\<close> is what the handler sends after its loop.
\<close>

definition targets :: "infoMap \<Rightarrow> string option list \<Rightarrow> string set" where
  "targets im stepIds = {k. \<exists>stepId \<in> set stepIds. targetOf im stepId = Some k}"

definition checkedSteps :: "checkbox list \<Rightarrow> string option list" where
  "checkedSteps boxes = map (\<lambda>b. nameAndStep1 (value b)) (filter checked boxes)"

definition checkedStepsOf :: "string \<Rightarrow> checkbox list \<Rightarrow> string option list" where
  "checkedStepsOf tn boxes =
     map (\<lambda>b. nameAndStep1 (value b))
       (filter (\<lambda>b. checked b \<and> nameAndStep0 (value b) = tn) boxes)"

definition testRebound :: "cmdMap \<Rightarrow> checkbox list \<Rightarrow> test \<Rightarrow> test \<Rightarrow> bool" where
  "testRebound cm boxes t t' \<longleftrightarrow>
     name t' = name t \<and> script t' = script t \<and>
     rebound cm (targets (infoMap t) (checkedStepsOf (name t) boxes)) (infoMap t) (infoMap t')"

definition projectRebound :: "cmdMap \<Rightarrow> checkbox list \<Rightarrow> project \<Rightarrow> project \<Rightarrow> bool" where
  "projectRebound cm boxes p p' \<longleftrightarrow>
     loadFrom p' = loadFrom p \<and> details p' = details p \<and>
     list_all2 (testRebound cm boxes) (tests p) (tests p')"

definition stateRebound :: "cmdMap \<Rightarrow> checkbox list \<Rightarrow> cm_state \<Rightarrow> cm_state \<Rightarrow> bool" where
  "stateRebound cm boxes s s' \<longleftrightarrow>
     rebound cm (targets (this_infoMap s) (checkedSteps boxes)) (this_infoMap s) (this_infoMap s') \<and>
     rel_option (projectRebound cm boxes) (this_projectInfo s) (this_projectInfo s')"

definition infoMapFor :: "cm_state \<Rightarrow> string \<Rightarrow> infoMap option" where
  "infoMapFor s v =
     (if isLocal s
      then (case this_projectInfo s of
              None \<Rightarrow> None
            | Some p \<Rightarrow> getInfoMapByTest p (nameAndStep0 v))
      else Some (this_infoMap s))"

definition saveRequest :: "cm_state \<Rightarrow> message list" where
  "saveRequest s =
     (case this_projectInfo s of
        None \<Rightarrow> []
      | Some p \<Rightarrow>
          if loadFrom p = LOCAL then [SAVE_PROJECT_LOCALLY (projectName s) (tests p)] else [])"

subsection \<open>A project of two tests\<close>

text \<open>
  Test T1 has the steps s1 and s3 on the element e1 and the step s4 on an element that
  does not exist; test T2 has the step s2 on the element e2. Both elements have the
  primary xpath \<open>//div[1]\<close>. The command map carries the xpath \<open>//span[1]\<close>. In \<open>ex_web\<close>
  the project's origin is WEB and T1 is the open test; in \<open>ex_local\<close> the origin is LOCAL.
\<close>

definition ex_elem :: elem where
  "ex_elem = \<lparr>selectors = JArr [JStr ''div''], xpaths = [''//div[1]''],
     descriptor = JStr ''old'', iframeInfo = JNull, otherFields = [(''tagName'', JStr ''div'')]\<rparr>"

definition ex_cmdMap :: cmdMap where
  "ex_cmdMap = \<lparr>selectors = JArr [JStr ''span''], xpaths = [''//span[1]''],
     descriptor = JStr ''new'', iframeInfo = JNull\<rparr>"

definition ex_infoMap1 :: infoMap where
  "ex_infoMap1 =
     \<lparr>steps = [(''s1'', \<lparr>stepName = ''click'', elemId = Some ''e1''\<rparr>),
               (''s3'', \<lparr>stepName = ''type'', elemId = Some ''e1''\<rparr>),
               (''s4'', \<lparr>stepName = ''verify'', elemId = Some ''e9''\<rparr>)],
       elems = [''e1'' \<mapsto> ex_elem]\<rparr>"

definition ex_infoMap2 :: infoMap where
  "ex_infoMap2 =
     \<lparr>steps = [(''s2'', \<lparr>stepName = ''click'', elemId = Some ''e2''\<rparr>)],
       elems = [''e2'' \<mapsto> ex_elem]\<rparr>"

definition ex_project :: project where
  "ex_project =
     \<lparr>tests = [\<lparr>name = ''T1'', script = ''run(s1)'', infoMap = ex_infoMap1\<rparr>,
               \<lparr>name = ''T2'', script = ''run(s2)'', infoMap = ex_infoMap2\<rparr>],
       loadFrom = LOCAL, details = JNull\<rparr>"

definition ex_web :: cm_state where
  "ex_web =
     \<lparr>this_projectInfo = Some (ex_project\<lparr>loadFrom := WEB\<rparr>), this_infoMap = ex_infoMap1,
       projectName = ''P'', this_testName = ''T1'', this_updateAllHandler = [],
       sent = [], calls = []\<rparr>"

definition ex_local :: cm_state where
  "ex_local = ex_web\<lparr>this_projectInfo := Some ex_project\<rparr>"

text \<open>
  Three more InfoMaps: in \<open>ex_infoMap_inherited\<close> the step s1 has the element e1 and the
  step s5 names the element \<open>constructor\<close>, which is no element of the InfoMap; in
  \<open>ex_infoMap_dangling\<close> that step s5 is the only step and there is no element; in
  \<open>ex_infoMap_undefined\<close> the step s6 has no element id and an element is stored under
  the key \<open>undefined\<close>.
\<close>

definition ex_infoMap_inherited :: infoMap where
  "ex_infoMap_inherited =
     \<lparr>steps = [(''s1'', \<lparr>stepName = ''click'', elemId = Some ''e1''\<rparr>),
               (''s5'', \<lparr>stepName = ''type'', elemId = Some ''constructor''\<rparr>)],
       elems = [''e1'' \<mapsto> ex_elem]\<rparr>"

definition ex_infoMap_dangling :: infoMap where
  "ex_infoMap_dangling =
     \<lparr>steps = [(''s5'', \<lparr>stepName = ''type'', elemId = Some ''constructor''\<rparr>)],
       elems = Map.empty\<rparr>"

definition ex_infoMap_undefined :: infoMap where
  "ex_infoMap_undefined =
     \<lparr>steps = [(''s6'', \<lparr>stepName = ''wait'', elemId = None\<rparr>)],
       elems = [''undefined'' \<mapsto> ex_elem]\<rparr>"

definition ex_project_dangling :: project where
  "ex_project_dangling =
     \<lparr>tests = [\<lparr>name = ''T1'', script = ''run(s5)'', infoMap = ex_infoMap_dangling\<rparr>],
       loadFrom = LOCAL, details = JNull\<rparr>"

definition ex_getTextAtLine :: "int \<Rightarrow> string" where
  "ex_getTextAtLine line = (if line = 3 then ''run(click, s1)'' else [])"

definition ex_getStepId :: "string \<Rightarrow> string" where
  "ex_getStepId lineContent = (if lineContent = ''run(click, s1)'' then ''s1'' else [])"

definition box :: "bool \<Rightarrow> string \<Rightarrow> checkbox" where
  "box c v = \<lparr>checked = c, value = v\<rparr>"

section \<open>The search\<close>

lemma js_get_Own: "js_get m k = Own v \<longleftrightarrow> m k = Some v"
  by (simp add: js_get_def split: option.splits)

lemma js_get_not_Own: "js_get m k = Absent \<or> js_get m k = Inherited \<Longrightarrow> m k = None"
  by (auto simp: js_get_def split: option.splits if_splits)

lemma getStepsFromInfoMap_loop_eq:
  "getStepsFromInfoMap_loop tn es X sts acc =
     (if list_ex (\<lambda>(k, st). js_get es (js_key (elemId st)) = Inherited) sts
      then Inl TypeError
      else Inr (acc @
        map (\<lambda>(k, st). \<lparr>stepName = stepName st, elemId = elemId st, testName = tn\<rparr>)
          (filter (\<lambda>(k, st). case es (js_key (elemId st)) of
                                None \<Rightarrow> False
                              | Some el \<Rightarrow> index0 (xpaths el) = X) sts)))"
proof (induction sts arbitrary: acc)
  case Nil
  show ?case by simp
next
  case (Cons x sts)
  obtain k st where x: "x = (k, st)" by (cases x)
  show ?case
  proof (cases "js_get es (js_key (elemId st))")
    case Absent
    then have "es (js_key (elemId st)) = None" using js_get_not_Own by blast
    with Absent x Cons.IH show ?thesis by simp
  next
    case Inherited
    with x show ?thesis by simp
  next
    case (Own el)
    then have "es (js_key (elemId st)) = Some el" by (simp add: js_get_Own)
    with Own x Cons.IH show ?thesis by simp
  qed
qed

lemma getStepsFromInfoMap_raises:
  "searchRaises im \<Longrightarrow> getStepsFromInfoMap tn im X = Inl TypeError"
  by (simp add: getStepsFromInfoMap_def getStepsFromInfoMap_loop_eq searchRaises_def)

lemma getStepsFromInfoMap_returns:
  "\<not> searchRaises im \<Longrightarrow> \<exists>r. getStepsFromInfoMap tn im X = Inr r"
  by (simp add: getStepsFromInfoMap_def getStepsFromInfoMap_loop_eq searchRaises_def)

lemma wellKeyed_filter:
  assumes "wellKeyed im"
  shows "filter (\<lambda>(k, st). case elems im (js_key (elemId st)) of
                              None \<Rightarrow> False
                            | Some el \<Rightarrow> index0 (xpaths el) = X) (steps im) =
         filter (\<lambda>(k, st). qualifies im X st) (steps im)"
proof (rule filter_cong[OF refl])
  fix x assume x: "x \<in> set (steps im)"
  obtain k st where kst: "x = (k, st)" by (cases x)
  show "(case x of (k, st) \<Rightarrow> case elems im (js_key (elemId st)) of
                              None \<Rightarrow> False
                            | Some el \<Rightarrow> index0 (xpaths el) = X) =
        (case x of (k, st) \<Rightarrow> qualifies im X st)"
  proof (cases "elemId st")
    case None
    with x kst have "list_ex (\<lambda>(k, st). elemId st = None) (steps im)"
      by (auto simp: list_ex_iff)
    with assms have "elems im ''undefined'' = None" by (auto simp: wellKeyed_def)
    with None kst show ?thesis by (simp add: qualifies_def js_key_def)
  next
    case (Some e)
    with kst show ?thesis by (simp add: qualifies_def js_key_def)
  qed
qed

text \<open>
  Outside the two cases that \<open>wellKeyed\<close> excludes, the search is the one the
  specification words: the qualifying steps in step order, then in project order, the
  empty result absent, nothing raised.
\<close>

lemma getStepsFromInfoMap_wellKeyed:
  assumes "wellKeyed im"
  shows "getStepsFromInfoMap tn im X = Inr (absentIfEmpty (matchesOfTest tn im X))"
proof -
  from assms have "\<not> list_ex (\<lambda>(k, st). js_get (elems im) (js_key (elemId st)) = Inherited) (steps im)"
    by (simp add: wellKeyed_def searchRaises_def)
  then show ?thesis
    by (simp add: getStepsFromInfoMap_def getStepsFromInfoMap_loop_eq wellKeyed_filter[OF assms]
        matchesOfTest_def absentIfEmpty_def)
qed

lemma getStepsWithSameXpath_loop_wellKeyed:
  "list_all (\<lambda>t. wellKeyed (infoMap t)) ts \<Longrightarrow>
   getStepsWithSameXpath_loop X ts acc = Inr (acc @ matchesOfProject ts X)"
  by (induction ts arbitrary: acc)
     (auto simp: matchesOfProject_def getStepsFromInfoMap_wellKeyed absentIfEmpty_def
       split: option.splits if_splits)

lemma getStepsWithSameXpath_wellKeyed:
  "list_all (\<lambda>t. wellKeyed (infoMap t)) (tests p) \<Longrightarrow>
   getStepsWithSameXpath (s\<lparr>this_projectInfo := Some p\<rparr>) X =
     Inr (absentIfEmpty (matchesOfProject (tests p) X))"
  by (simp add: getStepsWithSameXpath_def getStepsWithSameXpath_loop_wellKeyed absentIfEmpty_def)

section \<open>Lemmas on the update\<close>

lemma overwritten_idem [simp]: "overwritten cm (overwritten cm e) = overwritten cm e"
  by (simp add: overwritten_def)

lemma js_error_eq [simp]: "(e :: js_error) = e' \<longleftrightarrow> True"
  by (cases e; cases e') simp

lemma targetOf_own:
  "map_of (steps im) k = Some st \<Longrightarrow> targetOf im (Some k) = Some (js_key (elemId st))"
  by (simp add: targetOf_def js_get_def read_elemId_def js_key_def)

lemma updateElement_cases:
  "updateElement sid cm im =
     (case targetOf im sid of
        None \<Rightarrow> Inl TypeError
      | Some k \<Rightarrow>
          (case elems im k of
             None \<Rightarrow> Inl TypeError
           | Some e \<Rightarrow> Inr (index0 (xpaths e), im\<lparr>elems := (elems im)(k \<mapsto> overwritten cm e)\<rparr>)))"
  by (auto simp: updateElement_def targetOf_def overwritten_def Let_def js_get_def
      split: option.splits sum.splits property.splits)

lemma updateElement_Inr:
  "updateElement sid cm im = Inr (old, im') \<longleftrightarrow>
     (\<exists>k e. targetOf im sid = Some k \<and> elems im k = Some e \<and> old = index0 (xpaths e) \<and>
        im' = im\<lparr>elems := (elems im)(k \<mapsto> overwritten cm e)\<rparr>)"
  by (auto simp: updateElement_cases split: option.splits)



lemma rebound_refl [simp]: "rebound cm T im im"
  by (simp add: rebound_def)

lemma rebound_mono: "rebound cm T im im' \<Longrightarrow> T \<subseteq> T' \<Longrightarrow> rebound cm T' im im'"
  unfolding rebound_def by blast

lemma rebound_trans:
  assumes "rebound cm T1 im im1" and "rebound cm T2 im1 im2"
  shows "rebound cm (T1 \<union> T2) im im2"
proof -
  have st: "steps im2 = steps im" using assms by (simp add: rebound_def)
  have "elems im2 k = elems im k \<or>
        (k \<in> T1 \<union> T2 \<and> (\<exists>e. elems im k = Some e \<and> elems im2 k = Some (overwritten cm e)))" for k
  proof -
    from assms(1) have a: "elems im1 k = elems im k \<or>
        (k \<in> T1 \<and> (\<exists>e. elems im k = Some e \<and> elems im1 k = Some (overwritten cm e)))"
      by (simp add: rebound_def)
    from assms(2) have b: "elems im2 k = elems im1 k \<or>
        (k \<in> T2 \<and> (\<exists>e. elems im1 k = Some e \<and> elems im2 k = Some (overwritten cm e)))"
      by (simp add: rebound_def)
    from a b show ?thesis
      by (elim disjE conjE exE) (simp_all, metis)
  qed
  with st show ?thesis by (simp add: rebound_def)
qed

lemma updateElement_rebound:
  assumes "updateElement sid cm im = Inr (old, im')"
  shows "rebound cm (set_option (targetOf im sid)) im im'"
  using assms by (auto simp: updateElement_Inr rebound_def split: if_splits)

lemma rebound_targetOf: "rebound cm T im im' \<Longrightarrow> targetOf im' sid = targetOf im sid"
  by (simp add: rebound_def targetOf_def)

lemma rebound_dom: "rebound cm T im im' \<Longrightarrow> dom (elems im') = dom (elems im)"
  unfolding rebound_def dom_def by (metis option.distinct(1))


lemma searchRaises_rebound: "rebound cm T im im' \<Longrightarrow> searchRaises im' = searchRaises im"
proof -
  assume r: "rebound cm T im im'"
  have d: "elems im' k = None \<longleftrightarrow> elems im k = None" for k
    using rebound_dom[OF r] by (metis domIff)
  have i: "js_get m k = Inherited \<longleftrightarrow> m k = None \<and> k \<in> set objectPrototype"
    for m :: "string \<rightharpoonup> elem" and k
    by (simp add: js_get_def split: option.splits)
  have "js_get (elems im') k = Inherited \<longleftrightarrow> js_get (elems im) k = Inherited" for k
    by (simp add: i d)
  moreover from r have "steps im' = steps im" by (simp add: rebound_def)
  ultimately show ?thesis by (simp add: searchRaises_def)
qed

text \<open>An update that changes nothing stays so after any other update with the same command map.\<close>

lemma updateElement_fix_iff:
  "(\<exists>old. updateElement sid cm im = Inr (old, im)) \<longleftrightarrow>
   (\<exists>k e. targetOf im sid = Some k \<and> elems im k = Some e \<and> overwritten cm e = e)"
proof -
  have "im\<lparr>elems := (elems im)(k \<mapsto> overwritten cm e)\<rparr> = im \<longleftrightarrow> overwritten cm e = e"
    if "elems im k = Some e" for k e
  proof
    assume "im\<lparr>elems := (elems im)(k \<mapsto> overwritten cm e)\<rparr> = im"
    then have "elems (im\<lparr>elems := (elems im)(k \<mapsto> overwritten cm e)\<rparr>) k = elems im k" by simp
    with that show "overwritten cm e = e" by simp
  next
    assume "overwritten cm e = e"
    with that have "(elems im)(k \<mapsto> overwritten cm e) = elems im" by (auto simp: fun_upd_idem_iff)
    then show "im\<lparr>elems := (elems im)(k \<mapsto> overwritten cm e)\<rparr> = im" by simp
  qed
  then show ?thesis
    by (auto simp: updateElement_cases split: option.splits)
qed

lemma updateElement_twice:
  assumes "updateElement sid cm im = Inr (old, im')"
  shows "\<exists>old'. updateElement sid cm im' = Inr (old', im')"
proof -
  from assms obtain k e where k: "targetOf im sid = Some k" "elems im k = Some e"
    and im': "im' = im\<lparr>elems := (elems im)(k \<mapsto> overwritten cm e)\<rparr>"
    by (auto simp: updateElement_cases split: option.splits)
  have "targetOf im' sid = Some k" using k im' by (simp add: targetOf_def)
  moreover have "elems im' k = Some (overwritten cm e)" using im' by simp
  ultimately show ?thesis
    unfolding updateElement_fix_iff by (intro exI[of _ k] exI[of _ "overwritten cm e"]) simp
qed

lemma updateElement_fix_preserved:
  assumes "updateElement sid cm im = Inr (old, im)"
    and "updateElement sid' cm im = Inr (old', im')"
  shows "\<exists>old''. updateElement sid cm im' = Inr (old'', im')"
proof -
  from assms(1) obtain k e where k: "targetOf im sid = Some k" "elems im k = Some e"
    "overwritten cm e = e"
    using updateElement_fix_iff[of sid cm im] by blast
  from assms(2) obtain k' e' where k': "targetOf im sid' = Some k'" "elems im k' = Some e'"
    and im': "im' = im\<lparr>elems := (elems im)(k' \<mapsto> overwritten cm e')\<rparr>"
    by (auto simp: updateElement_cases split: option.splits)
  have t: "targetOf im' sid = Some k" using k im' by (simp add: targetOf_def)
  have "\<exists>e''. elems im' k = Some e'' \<and> overwritten cm e'' = e''"
    using k k' im' by (cases "k = k'") auto
  with t show ?thesis unfolding updateElement_fix_iff by blast
qed

subsection \<open>The tests of a project\<close>

lemma find_saveInfoMapToTests_same:
  "find (\<lambda>t. name t = tn) ts = Some t \<Longrightarrow>
   find (\<lambda>t. name t = tn) (saveInfoMapToTests ts tn im) = Some (t\<lparr>infoMap := im\<rparr>)"
  by (induction ts) (auto split: if_splits)

lemma find_saveInfoMapToTests_other:
  "tn' \<noteq> tn \<Longrightarrow>
   find (\<lambda>t. name t = tn') (saveInfoMapToTests ts tn im) = find (\<lambda>t. name t = tn') ts"
  by (induction ts) auto

lemma saveInfoMapToTests_same:
  "find (\<lambda>t. name t = tn) ts = Some t \<Longrightarrow> saveInfoMapToTests ts tn (infoMap t) = ts"
  by (induction ts) (auto split: if_splits)

lemma saveInfoMapToTests_eq_imp:
  "find (\<lambda>t. name t = tn) ts = Some t \<Longrightarrow> saveInfoMapToTests ts tn im = ts \<Longrightarrow> im = infoMap t"
proof -
  assume a: "find (\<lambda>t. name t = tn) ts = Some t" and b: "saveInfoMapToTests ts tn im = ts"
  from find_saveInfoMapToTests_same[OF a, of im] a b have "t\<lparr>infoMap := im\<rparr> = t" by simp
  from arg_cong[OF this, of infoMap] show ?thesis by simp
qed

lemma getInfoMapByTest_save:
  "getInfoMapByTest p tn = Some im \<Longrightarrow>
   getInfoMapByTest (saveInfoMapToTest p tn im') tn' =
     (if tn' = tn then Some im' else getInfoMapByTest p tn')"
  by (auto simp: getInfoMapByTest_def saveInfoMapToTest_def find_saveInfoMapToTests_same
      find_saveInfoMapToTests_other split: option.splits)

lemma saveInfoMapToTest_same:
  "getInfoMapByTest p tn = Some im \<Longrightarrow> saveInfoMapToTest p tn im = p"
  by (auto simp: getInfoMapByTest_def saveInfoMapToTest_def saveInfoMapToTests_same
      split: option.splits)

lemma saveInfoMapToTest_eq_imp:
  "getInfoMapByTest p tn = Some im \<Longrightarrow> saveInfoMapToTest p tn im' = p \<Longrightarrow> im' = im"
proof -
  assume a: "getInfoMapByTest p tn = Some im" and b: "saveInfoMapToTest p tn im' = p"
  from a obtain t where t: "find (\<lambda>t. name t = tn) (tests p) = Some t" "infoMap t = im"
    by (auto simp: getInfoMapByTest_def split: option.splits)
  from arg_cong[OF b, of tests] have "saveInfoMapToTests (tests p) tn im' = tests p"
    by (simp add: saveInfoMapToTest_def)
  with t show ?thesis using saveInfoMapToTests_eq_imp by blast
qed

lemma saveInfoMapToTest_loadFrom [simp]:
  "loadFrom (saveInfoMapToTest p tn im) = loadFrom p"
  by (simp add: saveInfoMapToTest_def)

subsection \<open>One selected box\<close>

lemma replaceSelected_web:
  "\<not> isLocal s \<Longrightarrow>
   replaceSelected cm v s =
     (case updateElement (nameAndStep1 v) cm (this_infoMap s) of
        Inl e \<Rightarrow> Inl e
      | Inr (old, im') \<Rightarrow> Inr (s\<lparr>this_infoMap := im'\<rparr>))"
  by (simp add: replaceSelected_def nameAndStep1_def Let_def)

lemma replaceSelected_local:
  "isLocal s \<Longrightarrow> this_projectInfo s = Some p \<Longrightarrow>
   replaceSelected cm v s =
     (case getInfoMapByTest p (nameAndStep0 v) of
        None \<Rightarrow> Inl TypeError
      | Some im \<Rightarrow>
          (case updateElement (nameAndStep1 v) cm im of
             Inl e \<Rightarrow> Inl e
           | Inr (old, im') \<Rightarrow>
               Inr (s\<lparr>this_projectInfo := Some (saveInfoMapToTest p (nameAndStep0 v) im')\<rparr>)))"
  by (auto simp: replaceSelected_def updateElementInTest_def nameAndStep0_def nameAndStep1_def Let_def
      split: option.splits sum.splits)

lemma isLocal_Some: "isLocal s \<Longrightarrow> \<exists>p. this_projectInfo s = Some p \<and> loadFrom p = LOCAL"
  by (auto simp: isLocal_def split: option.splits)

lemma replaceSelected_isLocal:
  "replaceSelected cm v s = Inr s' \<Longrightarrow> isLocal s' = isLocal s"
proof (cases "isLocal s")
  case True
  assume a: "replaceSelected cm v s = Inr s'"
  from True obtain p where p: "this_projectInfo s = Some p" "loadFrom p = LOCAL"
    using isLocal_Some by blast
  from a show ?thesis
    unfolding replaceSelected_local[OF True p(1)] using True p
    by (auto simp: isLocal_def split: option.splits sum.splits)
next
  case False
  assume a: "replaceSelected cm v s = Inr s'"
  from a show ?thesis
    unfolding replaceSelected_web[OF False] using False
    by (auto simp: isLocal_def split: option.splits sum.splits)
qed


lemma replaceSelected_twice:
  assumes "replaceSelected cm v s = Inr s'"
  shows "replaceSelected cm v s' = Inr s'"
proof (cases "isLocal s")
  case True
  then have l': "isLocal s'" using replaceSelected_isLocal[OF assms] by simp
  from True obtain p where p: "this_projectInfo s = Some p" using isLocal_Some by blast
  from assms obtain im old im' where im: "getInfoMapByTest p (nameAndStep0 v) = Some im"
    and u: "updateElement (nameAndStep1 v) cm im = Inr (old, im')"
    and s': "s' = s\<lparr>this_projectInfo := Some (saveInfoMapToTest p (nameAndStep0 v) im')\<rparr>"
    unfolding replaceSelected_local[OF True p] by (auto split: option.splits sum.splits)
  from updateElement_twice[OF u] obtain old' where
    u': "updateElement (nameAndStep1 v) cm im' = Inr (old', im')" by blast
  have p': "this_projectInfo s' = Some (saveInfoMapToTest p (nameAndStep0 v) im')"
    using s' by simp
  have g: "getInfoMapByTest (saveInfoMapToTest p (nameAndStep0 v) im') (nameAndStep0 v) = Some im'"
    using getInfoMapByTest_save[OF im] by simp
  show ?thesis
    unfolding replaceSelected_local[OF l' p'] using g u' s'
    by (simp add: saveInfoMapToTest_same)
next
  case False
  then have l': "\<not> isLocal s'" using replaceSelected_isLocal[OF assms] by simp
  from assms obtain old im' where u: "updateElement (nameAndStep1 v) cm (this_infoMap s) = Inr (old, im')"
    and s': "s' = s\<lparr>this_infoMap := im'\<rparr>"
    unfolding replaceSelected_web[OF False] by (auto split: sum.splits)
  from updateElement_twice[OF u] obtain old' where
    u': "updateElement (nameAndStep1 v) cm im' = Inr (old', im')" by blast
  show ?thesis unfolding replaceSelected_web[OF l'] using u' s' by simp
qed

lemma replaceSelected_fix_preserved:
  assumes f: "replaceSelected cm v s = Inr s"
    and w: "replaceSelected cm w s = Inr s'"
  shows "replaceSelected cm v s' = Inr s'"
proof (cases "isLocal s")
  case True
  then have l': "isLocal s'" using replaceSelected_isLocal[OF w] by simp
  from True obtain p where p: "this_projectInfo s = Some p" using isLocal_Some by blast
  from f obtain im old im0 where im: "getInfoMapByTest p (nameAndStep0 v) = Some im"
    and u: "updateElement (nameAndStep1 v) cm im = Inr (old, im0)"
    and s0: "s = s\<lparr>this_projectInfo := Some (saveInfoMapToTest p (nameAndStep0 v) im0)\<rparr>"
    unfolding replaceSelected_local[OF True p] by (auto split: option.splits sum.splits)
  from arg_cong[OF s0, of this_projectInfo] p
  have "saveInfoMapToTest p (nameAndStep0 v) im0 = p" by simp
  then have "im0 = im" using saveInfoMapToTest_eq_imp[OF im] by blast
  with u have ufix: "updateElement (nameAndStep1 v) cm im = Inr (old, im)" by simp
  from w obtain imw oldw imw' where imw: "getInfoMapByTest p (nameAndStep0 w) = Some imw"
    and uw: "updateElement (nameAndStep1 w) cm imw = Inr (oldw, imw')"
    and s': "s' = s\<lparr>this_projectInfo := Some (saveInfoMapToTest p (nameAndStep0 w) imw')\<rparr>"
    unfolding replaceSelected_local[OF True p] by (auto split: option.splits sum.splits)
  let ?p' = "saveInfoMapToTest p (nameAndStep0 w) imw'"
  have p': "this_projectInfo s' = Some ?p'" using s' by simp
  show ?thesis
  proof (cases "nameAndStep0 v = nameAndStep0 w")
    case True
    with im imw have "imw = im" by simp
    with uw have uw': "updateElement (nameAndStep1 w) cm im = Inr (oldw, imw')" by simp
    from updateElement_fix_preserved[OF ufix uw'] obtain old'' where
      u'': "updateElement (nameAndStep1 v) cm imw' = Inr (old'', imw')" by blast
    have g: "getInfoMapByTest ?p' (nameAndStep0 v) = Some imw'"
      using getInfoMapByTest_save[OF imw] True by simp
    have "saveInfoMapToTest ?p' (nameAndStep0 v) imw' = ?p'"
      using saveInfoMapToTest_same[OF g] .
    then show ?thesis
      unfolding replaceSelected_local[OF l' p'] using g u'' s' by simp
  next
    case False
    have g: "getInfoMapByTest ?p' (nameAndStep0 v) = Some im"
      using getInfoMapByTest_save[OF imw] False im by simp
    have "saveInfoMapToTest ?p' (nameAndStep0 v) im = ?p'"
      using saveInfoMapToTest_same[OF g] .
    then show ?thesis
      unfolding replaceSelected_local[OF l' p'] using g ufix s' by simp
  qed
next
  case False
  then have l': "\<not> isLocal s'" using replaceSelected_isLocal[OF w] by simp
  from f obtain old im0 where u: "updateElement (nameAndStep1 v) cm (this_infoMap s) = Inr (old, im0)"
    and s0: "s = s\<lparr>this_infoMap := im0\<rparr>"
    unfolding replaceSelected_web[OF False] by (auto split: sum.splits)
  from arg_cong[OF s0, of this_infoMap] have "im0 = this_infoMap s" by simp
  with u have ufix: "updateElement (nameAndStep1 v) cm (this_infoMap s) = Inr (old, this_infoMap s)"
    by simp
  from w obtain oldw imw' where uw: "updateElement (nameAndStep1 w) cm (this_infoMap s) = Inr (oldw, imw')"
    and s': "s' = s\<lparr>this_infoMap := imw'\<rparr>"
    unfolding replaceSelected_web[OF False] by (auto split: sum.splits)
  from updateElement_fix_preserved[OF ufix uw] obtain old'' where
    u'': "updateElement (nameAndStep1 v) cm imw' = Inr (old'', imw')" by blast
  show ?thesis unfolding replaceSelected_web[OF l'] using u'' s' by simp
qed

lemma replaceSelected_dataOf:
  assumes "dataOf s = dataOf t"
  shows "map_sum id dataOf (replaceSelected cm v s) = map_sum id dataOf (replaceSelected cm v t)"
proof -
  from assms have e: "this_projectInfo s = this_projectInfo t" "this_infoMap s = this_infoMap t"
    by (simp_all add: dataOf_def)
  then have l: "isLocal s = isLocal t" by (simp add: isLocal_def)
  show ?thesis
  proof (cases "isLocal s")
    case True
    from True obtain p where p: "this_projectInfo s = Some p" using isLocal_Some by blast
    with e have pt: "this_projectInfo t = Some p" by simp
    from True l have lt: "isLocal t" by simp
    show ?thesis
      unfolding replaceSelected_local[OF True p] replaceSelected_local[OF lt pt]
      using e by (auto simp: dataOf_def split: option.splits sum.splits)
  next
    case False
    with l have lt: "\<not> isLocal t" by simp
    show ?thesis
      unfolding replaceSelected_web[OF False] replaceSelected_web[OF lt]
      using e by (auto simp: dataOf_def split: option.splits sum.splits)
  qed
qed

subsection \<open>The loop over the boxes\<close>

lemma loop_fix_preserved:
  "replaceSelected cm v s = Inr s \<Longrightarrow> handleReplaceButton_loop cm bs s = (r, s') \<Longrightarrow>
   replaceSelected cm v s' = Inr s'"
proof (induction bs arbitrary: s)
  case Nil
  then show ?case by simp
next
  case (Cons b bs)
  show ?case
  proof (cases "checked b")
    case False
    with Cons show ?thesis by simp
  next
    case True
    show ?thesis
    proof (cases "replaceSelected cm (value b) s")
      case (Inl e)
      with True Cons.prems show ?thesis by simp
    next
      case (Inr s1)
      with True Cons.prems have l: "handleReplaceButton_loop cm bs s1 = (r, s')" by simp
      from replaceSelected_fix_preserved[OF Cons.prems(1) Inr]
      have "replaceSelected cm v s1 = Inr s1" .
      from Cons.IH[OF this l] show ?thesis .
    qed
  qed
qed

lemma loop_twice:
  "handleReplaceButton_loop cm bs s = (r, s') \<Longrightarrow> handleReplaceButton_loop cm bs s' = (r, s')"
proof (induction bs arbitrary: s)
  case Nil
  then show ?case by simp
next
  case (Cons b bs)
  show ?case
  proof (cases "checked b")
    case False
    with Cons show ?thesis by simp
  next
    case True
    show ?thesis
    proof (cases "replaceSelected cm (value b) s")
      case (Inl e)
      with True Cons.prems show ?thesis by auto
    next
      case (Inr s1)
      with True Cons.prems have l: "handleReplaceButton_loop cm bs s1 = (r, s')" by simp
      have "replaceSelected cm (value b) s1 = Inr s1" using replaceSelected_twice[OF Inr] .
      from loop_fix_preserved[OF this l] have "replaceSelected cm (value b) s' = Inr s'" .
      with True Cons.IH[OF l] show ?thesis by simp
    qed
  qed
qed

lemma loop_dataOf:
  "dataOf s = dataOf t \<Longrightarrow>
   map_prod id dataOf (handleReplaceButton_loop cm bs s) =
   map_prod id dataOf (handleReplaceButton_loop cm bs t)"
proof (induction bs arbitrary: s t)
  case Nil
  then show ?case by simp
next
  case (Cons b bs)
  show ?case
  proof (cases "checked b")
    case False
    then have "handleReplaceButton_loop cm (b # bs) s = handleReplaceButton_loop cm bs s"
      and "handleReplaceButton_loop cm (b # bs) t = handleReplaceButton_loop cm bs t"
      by simp_all
    with Cons.IH[OF Cons.prems] show ?thesis by simp
  next
    case True
    from replaceSelected_dataOf[OF Cons.prems, of cm "value b"]
    have rel: "map_sum id dataOf (replaceSelected cm (value b) s) =
               map_sum id dataOf (replaceSelected cm (value b) t)" .
    show ?thesis
    proof (cases "replaceSelected cm (value b) s")
      case (Inl e)
      with rel obtain e' where t: "replaceSelected cm (value b) t = Inl e'"
        by (cases "replaceSelected cm (value b) t") simp_all
      have "handleReplaceButton_loop cm (b # bs) s = (Some e, s)"
        using True Inl by simp
      moreover have "handleReplaceButton_loop cm (b # bs) t = (Some e', t)"
        using True t by simp
      ultimately show ?thesis using Cons.prems by simp
    next
      case (Inr s1)
      with rel obtain t1 where t1: "replaceSelected cm (value b) t = Inr t1"
        and d1: "dataOf s1 = dataOf t1"
        by (cases "replaceSelected cm (value b) t") simp_all
      have "handleReplaceButton_loop cm (b # bs) s = handleReplaceButton_loop cm bs s1"
        using True Inr by simp
      moreover have "handleReplaceButton_loop cm (b # bs) t = handleReplaceButton_loop cm bs t1"
        using True t1 by simp
      ultimately show ?thesis using Cons.IH[OF d1] by simp
    qed
  qed
qed

lemma handleReplaceButton_dataOf:
  "map_prod id dataOf (handleReplaceButton cm h bs s) =
   map_prod id dataOf (handleReplaceButton_loop cm bs s)"
  by (auto simp: handleReplaceButton_def handleCancelButton_def dataOf_def Let_def
      split: prod.splits option.splits)

subsection \<open>The frame of a run\<close>

lemma rebound_targets: "rebound cm T im im' \<Longrightarrow> targets im' sids = targets im sids"
  by (simp add: targets_def rebound_targetOf)

lemma rebound_trans_same:
  "rebound cm T im im1 \<Longrightarrow> rebound cm T im1 im2 \<Longrightarrow> rebound cm T im im2"
  using rebound_trans[of cm T im im1 T im2] by simp

lemma testRebound_refl [simp]: "testRebound cm boxes t t"
  by (simp add: testRebound_def)

lemma testRebound_trans:
  "testRebound cm boxes t t1 \<Longrightarrow> testRebound cm boxes t1 t2 \<Longrightarrow> testRebound cm boxes t t2"
  unfolding testRebound_def
  by (metis rebound_targets rebound_trans_same)

lemma projectRebound_refl [simp]: "projectRebound cm boxes p p"
  by (simp add: projectRebound_def list_all2_refl)

lemma projectRebound_trans:
  assumes "projectRebound cm boxes p p1" and "projectRebound cm boxes p1 p2"
  shows "projectRebound cm boxes p p2"
proof -
  have "list_all2 (testRebound cm boxes) (tests p) (tests p2)"
    using assms list_all2_trans[of "testRebound cm boxes" "testRebound cm boxes"
        "testRebound cm boxes" "tests p" "tests p1" "tests p2"] testRebound_trans
    unfolding projectRebound_def by blast
  with assms show ?thesis by (simp add: projectRebound_def)
qed

lemma stateRebound_refl [simp]: "stateRebound cm boxes s s"
  by (simp add: stateRebound_def option.rel_refl)

lemma stateRebound_trans:
  assumes "stateRebound cm boxes s s1" and "stateRebound cm boxes s1 s2"
  shows "stateRebound cm boxes s s2"
proof -
  from assms have a: "rebound cm (targets (this_infoMap s) (checkedSteps boxes))
       (this_infoMap s) (this_infoMap s1)"
    and b: "rebound cm (targets (this_infoMap s1) (checkedSteps boxes))
       (this_infoMap s1) (this_infoMap s2)"
    by (simp_all add: stateRebound_def)
  from b rebound_targets[OF a] have "rebound cm (targets (this_infoMap s) (checkedSteps boxes))
       (this_infoMap s1) (this_infoMap s2)" by simp
  with a have r: "rebound cm (targets (this_infoMap s) (checkedSteps boxes))
       (this_infoMap s) (this_infoMap s2)" by (rule rebound_trans_same)
  from assms have "rel_option (projectRebound cm boxes) (this_projectInfo s) (this_projectInfo s2)"
    unfolding stateRebound_def
    by (cases "this_projectInfo s"; cases "this_projectInfo s1"; cases "this_projectInfo s2")
       (auto intro: projectRebound_trans)
  with r show ?thesis by (simp add: stateRebound_def)
qed

lemma saveInfoMapToTests_rebound:
  assumes "find (\<lambda>t. name t = tn) ts = Some t"
    and "rebound cm (targets (infoMap t) (checkedStepsOf tn boxes)) (infoMap t) im'"
  shows "list_all2 (testRebound cm boxes) ts (saveInfoMapToTests ts tn im')"
  using assms
proof (induction ts)
  case Nil
  then show ?case by simp
next
  case (Cons a ts)
  show ?case
  proof (cases "name a = tn")
    case True
    with Cons.prems have "a = t" by simp
    with True Cons.prems(2) show ?thesis
      by (simp add: testRebound_def list_all2_refl)
  next
    case False
    with Cons show ?thesis by simp
  qed
qed

lemma updateElement_rebound_targets:
  assumes "updateElement sid cm im = Inr (old, im')" and "sid \<in> set sids"
  shows "rebound cm (targets im sids) im im'"
proof -
  have "set_option (targetOf im sid) \<subseteq> targets im sids"
    using assms(2) by (auto simp: targets_def)
  with updateElement_rebound[OF assms(1)] show ?thesis by (rule rebound_mono)
qed

lemma replaceSelected_stateRebound:
  assumes r: "replaceSelected cm (value b) s = Inr s'" and b: "b \<in> set boxes" "checked b"
  shows "stateRebound cm boxes s s'"
proof (cases "isLocal s")
  case True
  from True obtain p where p: "this_projectInfo s = Some p" using isLocal_Some by blast
  from r obtain im old im' where im: "getInfoMapByTest p (nameAndStep0 (value b)) = Some im"
    and u: "updateElement (nameAndStep1 (value b)) cm im = Inr (old, im')"
    and s': "s' = s\<lparr>this_projectInfo := Some (saveInfoMapToTest p (nameAndStep0 (value b)) im')\<rparr>"
    unfolding replaceSelected_local[OF True p] by (auto split: option.splits sum.splits)
  from im obtain t where t: "find (\<lambda>t. name t = nameAndStep0 (value b)) (tests p) = Some t"
    "infoMap t = im"
    by (auto simp: getInfoMapByTest_def split: option.splits)
  have "nameAndStep1 (value b) \<in> set (checkedStepsOf (nameAndStep0 (value b)) boxes)"
    using b by (auto simp: checkedStepsOf_def)
  from updateElement_rebound_targets[OF u this] t
  have "rebound cm (targets (infoMap t) (checkedStepsOf (nameAndStep0 (value b)) boxes))
          (infoMap t) im'" by simp
  from saveInfoMapToTests_rebound[OF t(1) this]
  have "projectRebound cm boxes p (saveInfoMapToTest p (nameAndStep0 (value b)) im')"
    by (simp add: projectRebound_def saveInfoMapToTest_def)
  with p s' show ?thesis by (simp add: stateRebound_def)
next
  case False
  from r obtain old im' where u: "updateElement (nameAndStep1 (value b)) cm (this_infoMap s) = Inr (old, im')"
    and s': "s' = s\<lparr>this_infoMap := im'\<rparr>"
    unfolding replaceSelected_web[OF False] by (auto split: sum.splits)
  have "nameAndStep1 (value b) \<in> set (checkedSteps boxes)"
    using b by (auto simp: checkedSteps_def)
  from updateElement_rebound_targets[OF u this] s' show ?thesis
    by (simp add: stateRebound_def option.rel_refl)
qed

lemma loop_stateRebound:
  "set bs \<subseteq> set boxes \<Longrightarrow> stateRebound cm boxes s (snd (handleReplaceButton_loop cm bs s))"
proof (induction bs arbitrary: s)
  case Nil
  then show ?case by simp
next
  case (Cons b bs)
  then have sub: "set bs \<subseteq> set boxes" and b: "b \<in> set boxes" by simp_all
  show ?case
  proof (cases "checked b")
    case False
    with Cons.IH[OF sub] show ?thesis by simp
  next
    case True
    show ?thesis
    proof (cases "replaceSelected cm (value b) s")
      case (Inl e)
      with True show ?thesis by simp
    next
      case (Inr s1)
      from replaceSelected_stateRebound[OF Inr b True] Cons.IH[OF sub, of s1]
      have "stateRebound cm boxes s (snd (handleReplaceButton_loop cm bs s1))"
        by (rule stateRebound_trans)
      with True Inr show ?thesis by simp
    qed
  qed
qed

lemma handleReplaceButton_stateRebound:
  "stateRebound cm boxes s (snd (handleReplaceButton cm h boxes s))"
proof -
  have "stateRebound cm boxes s (snd (handleReplaceButton_loop cm boxes s))"
    by (rule loop_stateRebound) simp
  moreover have "dataOf (snd (handleReplaceButton cm h boxes s)) =
      dataOf (snd (handleReplaceButton_loop cm boxes s))"
    using handleReplaceButton_dataOf[of cm h boxes s]
    by (cases "handleReplaceButton cm h boxes s"; cases "handleReplaceButton_loop cm boxes s") simp
  ultimately show ?thesis by (simp add: stateRebound_def dataOf_def)
qed

subsection \<open>Resolution is stable under updates\<close>

lemma stateRebound_isLocal: "stateRebound cm boxes s s' \<Longrightarrow> isLocal s' = isLocal s"
  unfolding stateRebound_def isLocal_def projectRebound_def
  by (cases "this_projectInfo s"; cases "this_projectInfo s'") auto

lemma list_all2_find_name:
  assumes "list_all2 R ts ts'" and "\<And>t t'. R t t' \<Longrightarrow> name t' = name t"
  shows "rel_option R (find (\<lambda>t. name t = tn) ts) (find (\<lambda>t. name t = tn) ts')"
  using assms(1)
proof (induction rule: list_all2_induct)
  case Nil
  then show ?case by simp
next
  case (Cons x xs y ys)
  from assms(2)[OF Cons.hyps(1)] have "name y = name x" .
  with Cons show ?case by simp
qed

lemma projectRebound_getInfoMapByTest:
  assumes "projectRebound cm boxes p p'"
  shows "rel_option (\<lambda>im im'. rebound cm (targets im (checkedStepsOf tn boxes)) im im')
           (getInfoMapByTest p tn) (getInfoMapByTest p' tn)"
proof -
  from assms have l: "list_all2 (testRebound cm boxes) (tests p) (tests p')"
    by (simp add: projectRebound_def)
  have n: "\<And>t t'. testRebound cm boxes t t' \<Longrightarrow> name t' = name t"
    by (simp add: testRebound_def)
  from list_all2_find_name[OF l n, of tn]
  have r: "rel_option (testRebound cm boxes) (find (\<lambda>t. name t = tn) (tests p))
            (find (\<lambda>t. name t = tn) (tests p'))" .
  show ?thesis
  proof (cases "find (\<lambda>t. name t = tn) (tests p)")
    case None
    with r show ?thesis by (cases "find (\<lambda>t. name t = tn) (tests p')")
        (simp_all add: getInfoMapByTest_def)
  next
    case (Some t)
    with r obtain t' where t': "find (\<lambda>t. name t = tn) (tests p') = Some t'"
      "testRebound cm boxes t t'"
      by (cases "find (\<lambda>t. name t = tn) (tests p')") simp_all
    from Some have "name t = tn" by (auto dest: find_Some_iff[THEN iffD1])
    with t'(2) have "rebound cm (targets (infoMap t) (checkedStepsOf tn boxes)) (infoMap t) (infoMap t')"
      by (simp add: testRebound_def)
    with Some t'(1) show ?thesis by (simp add: getInfoMapByTest_def)
  qed
qed






lemma replaceSelected_others:
  assumes "replaceSelected cm v s = Inr s'"
  shows "projectName s' = projectName s \<and> this_testName s' = this_testName s \<and>
         this_updateAllHandler s' = this_updateAllHandler s \<and> sent s' = sent s \<and>
         calls s' = calls s"
proof (cases "isLocal s")
  case True
  from True obtain p where p: "this_projectInfo s = Some p" using isLocal_Some by blast
  from assms show ?thesis
    unfolding replaceSelected_local[OF True p] by (auto split: option.splits sum.splits)
next
  case False
  from assms show ?thesis
    unfolding replaceSelected_web[OF False] by (auto split: option.splits sum.splits)
qed

lemma loop_others:
  "handleReplaceButton_loop cm bs s = (r, s') \<Longrightarrow>
   projectName s' = projectName s \<and> this_testName s' = this_testName s \<and>
   this_updateAllHandler s' = this_updateAllHandler s \<and> sent s' = sent s \<and>
   calls s' = calls s"
proof (induction bs arbitrary: s)
  case Nil
  then show ?case by simp
next
  case (Cons b bs)
  show ?case
  proof (cases "checked b")
    case False
    with Cons.prems have "handleReplaceButton_loop cm bs s = (r, s')" by simp
    from Cons.IH[OF this] show ?thesis .
  next
    case True
    show ?thesis
    proof (cases "replaceSelected cm (value b) s")
      case (Inl e)
      with True Cons.prems have "s' = s" by simp
      then show ?thesis by simp
    next
      case (Inr s1)
      with True Cons.prems have l: "handleReplaceButton_loop cm bs s1 = (r, s')" by simp
      from Cons.IH[OF l] replaceSelected_others[OF Inr] show ?thesis by simp
    qed
  qed
qed

subsection \<open>The handler\<close>

lemma handleReplaceButton_Some:
  "handleReplaceButton_loop cm bs s = (Some e, s') \<Longrightarrow>
   handleReplaceButton cm h bs s = (Some e, s')"
  by (simp add: handleReplaceButton_def)

lemma handleReplaceButton_None:
  "handleReplaceButton_loop cm bs s = (None, s') \<Longrightarrow>
   handleReplaceButton cm h bs s =
     (None, handleCancelButton h (s'\<lparr>sent := sent s' @ saveRequest s'\<rparr>))"
  by (auto simp: handleReplaceButton_def saveRequest_def Let_def split: option.splits)

lemma loop_unchecked:
  "\<forall>b \<in> set bs. \<not> checked b \<Longrightarrow> handleReplaceButton_loop cm bs s = (None, s)"
  by (induction bs) simp_all

lemma loop_web:
  "\<not> isLocal s \<Longrightarrow> this_projectInfo (snd (handleReplaceButton_loop cm bs s)) = this_projectInfo s"
proof (induction bs arbitrary: s)
  case Nil
  then show ?case by simp
next
  case (Cons b bs)
  show ?case
  proof (cases "checked b")
    case False
    with Cons show ?thesis by simp
  next
    case True
    show ?thesis
    proof (cases "replaceSelected cm (value b) s")
      case (Inl e)
      with True show ?thesis by simp
    next
      case (Inr s1)
      from Inr have p: "this_projectInfo s1 = this_projectInfo s"
        unfolding replaceSelected_web[OF Cons.prems] by (auto split: sum.splits)
      have "\<not> isLocal s1" using replaceSelected_isLocal[OF Inr] Cons.prems by simp
      from Cons.IH[OF this] p True Inr show ?thesis by simp
    qed
  qed
qed

lemma loop_local:
  "isLocal s \<Longrightarrow> this_infoMap (snd (handleReplaceButton_loop cm bs s)) = this_infoMap s"
proof (induction bs arbitrary: s)
  case Nil
  then show ?case by simp
next
  case (Cons b bs)
  show ?case
  proof (cases "checked b")
    case False
    with Cons show ?thesis by simp
  next
    case True
    show ?thesis
    proof (cases "replaceSelected cm (value b) s")
      case (Inl e)
      with True show ?thesis by simp
    next
      case (Inr s1)
      from Cons.prems obtain p where p: "this_projectInfo s = Some p" using isLocal_Some by blast
      from Inr have i: "this_infoMap s1 = this_infoMap s"
        unfolding replaceSelected_local[OF Cons.prems p] by (auto split: option.splits sum.splits)
      have "isLocal s1" using replaceSelected_isLocal[OF Inr] Cons.prems by simp
      from Cons.IH[OF this] i True Inr show ?thesis by simp
    qed
  qed
qed

lemma loop_isLocal: "isLocal (snd (handleReplaceButton_loop cm bs s)) = isLocal s"
  using loop_stateRebound[of bs bs cm s] stateRebound_isLocal by blast

lemma saveRequest_local:
  "isLocal s \<Longrightarrow> \<exists>p. this_projectInfo s = Some p \<and>
     saveRequest s = [SAVE_PROJECT_LOCALLY (projectName s) (tests p)]"
  by (auto simp: isLocal_def saveRequest_def split: option.splits)

lemma saveRequest_web: "\<not> isLocal s \<Longrightarrow> saveRequest s = []"
  by (auto simp: isLocal_def saveRequest_def split: option.splits)

subsection \<open>What a normal return leaves\<close>

lemma rebound_otherFields:
  "rebound cm T im im' \<Longrightarrow>
   map_option otherFields (elems im' k) = map_option otherFields (elems im k)"
proof -
  assume "rebound cm T im im'"
  then have "elems im' k = elems im k \<or>
      (\<exists>e. elems im k = Some e \<and> elems im' k = Some (overwritten cm e))"
    by (auto simp: rebound_def)
  then show ?thesis by (auto simp: overwritten_def)
qed

lemma rebound_fix_overwritten:
  assumes r: "rebound cm T im im'" and u: "updateElement sid cm im' = Inr (old, im')"
  shows "\<exists>k e. targetOf im sid = Some k \<and> elems im k = Some e \<and>
           elems im' k = Some (overwritten cm e)"
proof -
  from u obtain k e' where k: "targetOf im' sid = Some k" "elems im' k = Some e'"
    "overwritten cm e' = e'"
    using updateElement_fix_iff[of sid cm im'] by blast
  from r k(1) have t: "targetOf im sid = Some k" by (simp add: rebound_targetOf)
  from r have "elems im' k = elems im k \<or>
      (\<exists>e. elems im k = Some e \<and> elems im' k = Some (overwritten cm e))"
    by (auto simp: rebound_def)
  then show ?thesis
  proof
    assume "elems im' k = elems im k"
    with k have "elems im k = Some e'" "elems im' k = Some (overwritten cm e')" by simp_all
    with t show ?thesis by blast
  next
    assume "\<exists>e. elems im k = Some e \<and> elems im' k = Some (overwritten cm e)"
    with t show ?thesis by blast
  qed
qed

lemma loop_checked_fix:
  "handleReplaceButton_loop cm bs s = (None, s') \<Longrightarrow> b \<in> set bs \<Longrightarrow> checked b \<Longrightarrow>
   replaceSelected cm (value b) s' = Inr s'"
proof (induction bs arbitrary: s)
  case Nil
  then show ?case by simp
next
  case (Cons a bs)
  show ?case
  proof (cases "checked a")
    case False
    with Cons.prems have l: "handleReplaceButton_loop cm bs s = (None, s')" and "b \<in> set bs"
      by auto
    with Cons.IH Cons.prems(3) show ?thesis by blast
  next
    case True
    show ?thesis
    proof (cases "replaceSelected cm (value a) s")
      case (Inl e)
      with True Cons.prems(1) show ?thesis by simp
    next
      case (Inr s1)
      with True Cons.prems(1) have l: "handleReplaceButton_loop cm bs s1 = (None, s')" by simp
      show ?thesis
      proof (cases "b = a")
        case True
        from replaceSelected_twice[OF Inr] have "replaceSelected cm (value a) s1 = Inr s1" .
        from loop_fix_preserved[OF this l] True show ?thesis by simp
      next
        case False
        with Cons.prems(2) have "b \<in> set bs" by simp
        from Cons.IH[OF l this Cons.prems(3)] show ?thesis .
      qed
    qed
  qed
qed

lemma replaceSelected_fix_infoMapFor:
  assumes "replaceSelected cm v s = Inr s"
  shows "\<exists>im old. infoMapFor s v = Some im \<and> updateElement (nameAndStep1 v) cm im = Inr (old, im)"
proof (cases "isLocal s")
  case True
  from True obtain p where p: "this_projectInfo s = Some p" using isLocal_Some by blast
  from assms obtain im old im0 where im: "getInfoMapByTest p (nameAndStep0 v) = Some im"
    and u: "updateElement (nameAndStep1 v) cm im = Inr (old, im0)"
    and s0: "s = s\<lparr>this_projectInfo := Some (saveInfoMapToTest p (nameAndStep0 v) im0)\<rparr>"
    unfolding replaceSelected_local[OF True p] by (auto split: option.splits sum.splits)
  from arg_cong[OF s0, of this_projectInfo] p
  have "saveInfoMapToTest p (nameAndStep0 v) im0 = p" by simp
  then have "im0 = im" using saveInfoMapToTest_eq_imp[OF im] by blast
  with u im True p show ?thesis by (simp add: infoMapFor_def)
next
  case False
  from assms obtain old im0 where u: "updateElement (nameAndStep1 v) cm (this_infoMap s) = Inr (old, im0)"
    and s0: "s = s\<lparr>this_infoMap := im0\<rparr>"
    unfolding replaceSelected_web[OF False] by (auto split: sum.splits)
  from arg_cong[OF s0, of this_infoMap] have "im0 = this_infoMap s" by simp
  with u False show ?thesis by (simp add: infoMapFor_def)
qed

lemma stateRebound_infoMapFor:
  assumes "stateRebound cm boxes s s'"
  shows "rel_option (\<lambda>im im'. \<exists>T. rebound cm T im im') (infoMapFor s v) (infoMapFor s' v)"
proof (cases "isLocal s")
  case True
  then have l': "isLocal s'" using stateRebound_isLocal[OF assms] by simp
  from True obtain p where p: "this_projectInfo s = Some p" using isLocal_Some by blast
  from l' obtain p' where p': "this_projectInfo s' = Some p'" using isLocal_Some by blast
  from assms p p' have "projectRebound cm boxes p p'" by (simp add: stateRebound_def)
  from projectRebound_getInfoMapByTest[OF this, of "nameAndStep0 v"]
  show ?thesis using True l' p p'
    by (cases "getInfoMapByTest p (nameAndStep0 v)"; cases "getInfoMapByTest p' (nameAndStep0 v)")
       (auto simp: infoMapFor_def)
next
  case False
  then have l': "\<not> isLocal s'" using stateRebound_isLocal[OF assms] by simp
  from assms have "rebound cm (targets (this_infoMap s) (checkedSteps boxes))
      (this_infoMap s) (this_infoMap s')" by (simp add: stateRebound_def)
  then show ?thesis using False l' by (auto simp: infoMapFor_def)
qed

lemma handleReplaceButton_overwrites:
  assumes h: "handleReplaceButton cm h boxes s = (None, s')"
    and b: "b \<in> set boxes" "checked b"
  shows "\<exists>im im' k e. infoMapFor s (value b) = Some im \<and> infoMapFor s' (value b) = Some im' \<and>
           steps im' = steps im \<and>
           targetOf im (nameAndStep1 (value b)) = Some k \<and> elems im k = Some e \<and>
           elems im' k = Some (overwritten cm e)"
proof -
  obtain r1 s1 where l: "handleReplaceButton_loop cm boxes s = (r1, s1)"
    by (cases "handleReplaceButton_loop cm boxes s")
  have r1: "r1 = None"
    using handleReplaceButton_dataOf[of cm h boxes s] h l by simp
  have d: "dataOf s' = dataOf s1"
    using handleReplaceButton_dataOf[of cm h boxes s] h l by simp
  then have i: "infoMapFor s' (value b) = infoMapFor s1 (value b)"
    by (simp add: infoMapFor_def dataOf_def isLocal_def)
  from loop_checked_fix[OF l[unfolded r1] b] have "replaceSelected cm (value b) s1 = Inr s1" .
  from replaceSelected_fix_infoMapFor[OF this] obtain im' old where
    im': "infoMapFor s1 (value b) = Some im'"
    and u: "updateElement (nameAndStep1 (value b)) cm im' = Inr (old, im')" by blast
  have "stateRebound cm boxes s s1" using loop_stateRebound[of boxes boxes cm s] l by simp
  from stateRebound_infoMapFor[OF this, of "value b"] im' obtain im T where
    im: "infoMapFor s (value b) = Some im" and r: "rebound cm T im im'"
    by (cases "infoMapFor s (value b)") auto
  from rebound_fix_overwritten[OF r u] r im im' i show ?thesis
    by (auto simp: rebound_def)
qed

section \<open>Evaluation on the example\<close>

lemmas ex_defs = ex_elem_def ex_cmdMap_def ex_infoMap1_def ex_infoMap2_def ex_project_def
  ex_web_def ex_local_def LOCAL_def WEB_def box_def ex_getTextAtLine_def ex_getStepId_def
  ex_infoMap_inherited_def ex_infoMap_dangling_def ex_infoMap_undefined_def
  ex_project_dangling_def

lemmas run_defs = handleReplaceButton_def replaceSelected_def updateElementInTest_def
  updateElement_def getInfoMapByTest_def saveInfoMapToTest_def isLocal_def
  handleCancelButton_def js_key_def index0_def Let_def nameAndStep0_def nameAndStep1_def
  resolves_def resolvesIn_def targetOf_def infoMapFor_def overwritten_def saveRequest_def
  js_get_def read_elemId_def objectPrototype_def

lemmas search_defs = getStepsWithSameXpath_def getStepsFromInfoMap_def js_get_def
  objectPrototype_def js_key_def index0_def matchesOfTest_def matchesOfProject_def
  qualifies_def Let_def

text \<open>
  The search on the project of two tests: the old xpath \<open>//div[1]\<close> is found at both steps
  of T1 that have an element and at the step of T2, in that order; \<open>//div[2]\<close> is found
  nowhere and the result is absent.
\<close>

lemma search_example:
  "getStepsWithSameXpath ex_local (Some ''//div[1]'') =
     Inr (Some [\<lparr>stepName = ''click'', elemId = Some ''e1'', testName = ''T1''\<rparr>,
                \<lparr>stepName = ''type'', elemId = Some ''e1'', testName = ''T1''\<rparr>,
                \<lparr>stepName = ''click'', elemId = Some ''e2'', testName = ''T2''\<rparr>]) \<and>
   getStepsWithSameXpath ex_local (Some ''//div[2]'') = Inr None"
  by (simp add: search_defs ex_defs)

text \<open>
  A step id that names an inherited property: the replace handler, given the box
  \<open>T1___constructor\<close>, reads no element id and rewrites the element stored under the key
  \<open>undefined\<close>, and returns normally.
\<close>

lemma inherited_step_example:
  "handleReplaceButton_loop ex_cmdMap [box True ''T1___constructor'']
     (ex_web\<lparr>this_infoMap := ex_infoMap_undefined\<rparr>) =
   (None, ex_web\<lparr>this_infoMap :=
      ex_infoMap_undefined\<lparr>elems := [''undefined'' \<mapsto> overwritten ex_cmdMap ex_elem]\<rparr>\<rparr>)"
  by (simp add: ex_defs run_defs)

section \<open>The claims on the search\<close>

text \<open>
  C1 does not hold of the program on two kinds of InfoMap. On \<open>ex_infoMap_inherited\<close> the
  steps whose element exists with the primary xpath \<open>//div[1]\<close> are the one step s1, and
  the step s5, whose element id does not resolve, is to be left out without an error:
  \<^verbatim>\<open>getStepsFromInfoMap_\<close> raises \<open>TypeError\<close> instead, because \<^verbatim>\<open>elems['constructor']\<close> is
  the inherited function. On \<open>ex_infoMap_undefined\<close> no step has an element id, so no
  step qualifies: \<^verbatim>\<open>getStepsFromInfoMap_\<close> returns the step s6, because
  \<^verbatim>\<open>elems[undefined]\<close> reads the element stored under \<open>undefined\<close>.
\<close>

theorem findMatches_reads_beyond_own_keys:
  "matchesOfTest ''T1'' ex_infoMap_inherited (Some ''//div[1]'') =
     [\<lparr>stepName = ''click'', elemId = Some ''e1'', testName = ''T1''\<rparr>] \<and>
   getStepsFromInfoMap ''T1'' ex_infoMap_inherited (Some ''//div[1]'') = Inl TypeError \<and>
   matchesOfTest ''T1'' ex_infoMap_undefined (Some ''//div[1]'') = [] \<and>
   getStepsFromInfoMap ''T1'' ex_infoMap_undefined (Some ''//div[1]'') =
     Inr (Some [\<lparr>stepName = ''wait'', elemId = None, testName = ''T1''\<rparr>])"
  by (simp add: search_defs ex_defs)

text \<open>
  C6 does not hold of the program on \<open>ex_infoMap_dangling\<close>: no step qualifies, for the
  one InfoMap and for the project that holds it, and the result is to be the absent
  value; \<^verbatim>\<open>getStepsFromInfoMap_\<close> and \<^verbatim>\<open>getStepsWithSameXpath_\<close> raise \<open>TypeError\<close> instead,
  and so does \<^verbatim>\<open>showElementsAfterProjectUpdated_\<close> on the reply that loads this project.
\<close>

theorem findMatches_dangling_inherited_raises:
  "matchesOfTest ''T1'' ex_infoMap_dangling (Some ''//div[1]'') = [] \<and>
   getStepsFromInfoMap ''T1'' ex_infoMap_dangling (Some ''//div[1]'') = Inl TypeError \<and>
   matchesOfProject (tests ex_project_dangling) (Some ''//div[1]'') = [] \<and>
   getStepsWithSameXpath (ex_local\<lparr>this_projectInfo := Some ex_project_dangling\<rparr>)
     (Some ''//div[1]'') = Inl TypeError \<and>
   fst (showElementsAfterProjectUpdated 7 ex_cmdMap (Some ''//div[1]'')
          \<lparr>resp_tests = tests ex_project_dangling, resp_details = JNull\<rparr> ex_local) =
     Some TypeError"
  by (simp add: search_defs ex_defs showElementsAfterProjectUpdated_def setProjectInfo_def)

text \<open>
  What holds of the absent result: the search never returns an empty sequence, and on
  the absent value \<^verbatim>\<open>showElementsWithSameXpath_\<close> returns without calling the callback.
\<close>

lemma search_never_empty:
  "getStepsFromInfoMap tn im X \<noteq> Inr (Some []) \<and>
   getStepsWithSameXpath s X \<noteq> Inr (Some []) \<and>
   showElementsWithSameXpath None lf callback cm s = s"
  by (auto simp: getStepsFromInfoMap_def getStepsWithSameXpath_def showElementsWithSameXpath_def
      split: sum.splits option.splits)

section \<open>The claims on the update and on the handlers\<close>

text \<open>
  C7. The replace handler is idempotent on a fixed selection: for every state, command
  map and list of boxes, running the handler a second time on the state the first run
  left gives the same outcome, the same InfoMap of the open test and the same project
  (so every element record is as after the first run).
\<close>

theorem applyUpdate_idempotent:
  "fst (handleReplaceButton cm h bs (snd (handleReplaceButton cm h bs s))) =
     fst (handleReplaceButton cm h bs s) \<and>
   this_infoMap (snd (handleReplaceButton cm h bs (snd (handleReplaceButton cm h bs s)))) =
     this_infoMap (snd (handleReplaceButton cm h bs s)) \<and>
   this_projectInfo (snd (handleReplaceButton cm h bs (snd (handleReplaceButton cm h bs s)))) =
     this_projectInfo (snd (handleReplaceButton cm h bs s))"
proof -
  obtain r s1 where l: "handleReplaceButton_loop cm bs s = (r, s1)"
    by (cases "handleReplaceButton_loop cm bs s")
  let ?R1 = "handleReplaceButton cm h bs s"
  let ?R2 = "handleReplaceButton cm h bs (snd ?R1)"
  have d: "dataOf (snd ?R1) = dataOf s1"
    using handleReplaceButton_dataOf[of cm h bs s] l by (cases ?R1) auto
  have "map_prod id dataOf ?R2 = map_prod id dataOf (handleReplaceButton_loop cm bs (snd ?R1))"
    by (rule handleReplaceButton_dataOf)
  also have "\<dots> = map_prod id dataOf (handleReplaceButton_loop cm bs s1)"
    by (rule loop_dataOf[OF d])
  also have "\<dots> = map_prod id dataOf (handleReplaceButton_loop cm bs s)"
    using loop_twice[OF l] l by simp
  also have "\<dots> = map_prod id dataOf ?R1"
    by (rule handleReplaceButton_dataOf[symmetric])
  finally have "map_prod id dataOf ?R2 = map_prod id dataOf ?R1" .
  then show ?thesis
    by (cases ?R1; cases ?R2) (simp add: dataOf_def)
qed

text \<open>
  C2. When the project's origin is LOCAL and the replace handler has applied the new
  locator to every checked box (it returns normally), it has sent exactly one request,
  \<open>SAVE_PROJECT_LOCALLY\<close> with the project name and the whole list of tests as updated,
  and the InfoMap of the open test is untouched. When the origin is not LOCAL or there is
  no project info, nothing is sent and the project is untouched: only the open test's
  InfoMap can change. A run that raises sends nothing.
\<close>

theorem applyUpdate_persistence:
  assumes "handleReplaceButton cm h boxes s = (r, s')"
  shows "(isLocal s \<and> r = None \<longrightarrow>
            (\<exists>p'. this_projectInfo s' = Some p' \<and>
               sent s' = sent s @ [SAVE_PROJECT_LOCALLY (projectName s) (tests p')])) \<and>
         (isLocal s \<longrightarrow> this_infoMap s' = this_infoMap s) \<and>
         (r \<noteq> None \<longrightarrow> sent s' = sent s) \<and>
         (\<not> isLocal s \<longrightarrow> sent s' = sent s \<and> this_projectInfo s' = this_projectInfo s)"
proof -
  obtain r1 s1 where l: "handleReplaceButton_loop cm boxes s = (r1, s1)"
    by (cases "handleReplaceButton_loop cm boxes s")
  from loop_others[OF l] have o: "sent s1 = sent s" "projectName s1 = projectName s" by simp_all
  from loop_isLocal[of cm boxes s] l have il: "isLocal s1 = isLocal s" by simp
  from loop_web[of s cm boxes] l have w: "\<not> isLocal s \<Longrightarrow> this_projectInfo s1 = this_projectInfo s"
    by simp
  from loop_local[of s cm boxes] l have lo: "isLocal s \<Longrightarrow> this_infoMap s1 = this_infoMap s"
    by simp
  show ?thesis
  proof (cases r1)
    case None
    from handleReplaceButton_None[of cm boxes s s1 h] l None assms
    have r: "r = None" and s': "s' = handleCancelButton h (s1\<lparr>sent := sent s1 @ saveRequest s1\<rparr>)"
      by simp_all
    show ?thesis
    proof (cases "isLocal s")
      case True
      with il saveRequest_local[of s1] obtain p' where
        "this_projectInfo s1 = Some p'" "saveRequest s1 = [SAVE_PROJECT_LOCALLY (projectName s1) (tests p')]"
        by auto
      with True r s' o lo show ?thesis by (simp add: handleCancelButton_def)
    next
      case False
      with il saveRequest_web[of s1] have "saveRequest s1 = []" by simp
      with False r s' o w show ?thesis by (simp add: handleCancelButton_def)
    qed
  next
    case (Some e)
    from handleReplaceButton_Some[of cm boxes s e s1 h] l Some assms
    have "r = Some e" and "s' = s1" by simp_all
    with o w lo show ?thesis by simp
  qed
qed

text \<open>C2, at the LOCAL project with the box of T1's step s1 checked, and at the WEB one.\<close>

theorem applyUpdate_persistence_witness:
  "isLocal ex_local \<and>
   fst (handleReplaceButton ex_cmdMap 0 [box True ''T1___s1'', box False ''T2___s2''] ex_local) = None \<and>
   (\<exists>p'. this_projectInfo
            (snd (handleReplaceButton ex_cmdMap 0 [box True ''T1___s1'', box False ''T2___s2''] ex_local)) =
          Some p' \<and>
        sent (snd (handleReplaceButton ex_cmdMap 0 [box True ''T1___s1'', box False ''T2___s2''] ex_local)) =
          sent ex_local @ [SAVE_PROJECT_LOCALLY (projectName ex_local) (tests p')]) \<and>
   \<not> isLocal ex_web \<and>
   sent (snd (handleReplaceButton ex_cmdMap 0 [box True ''T1___s1''] ex_web)) = sent ex_web \<and>
   this_projectInfo (snd (handleReplaceButton ex_cmdMap 0 [box True ''T1___s1''] ex_web)) =
     this_projectInfo ex_web"
proof -
  let ?R = "handleReplaceButton ex_cmdMap 0 [box True ''T1___s1'', box False ''T2___s2''] ex_local"
  let ?W = "handleReplaceButton ex_cmdMap 0 [box True ''T1___s1''] ex_web"
  have l: "isLocal ex_local" by (simp add: ex_defs run_defs)
  have w: "\<not> isLocal ex_web" by (simp add: ex_defs run_defs)
  have n: "fst ?R = None" by (simp add: ex_defs run_defs)
  have r: "?R = (fst ?R, snd ?R)" and v: "?W = (fst ?W, snd ?W)" by simp_all
  from applyUpdate_persistence[OF r] applyUpdate_persistence[OF v] l w n show ?thesis by blast
qed

text \<open>
  C3 as stated fails when the origin is LOCAL: with the only box unchecked, the handler
  still sends the save request.
\<close>

theorem confirm_nothing_selected_counterexample:
  "\<not> checked (box False ''T1___s1'') \<and>
   sent ex_local = [] \<and>
   sent (snd (handleReplaceButton ex_cmdMap 0 [box False ''T1___s1''] ex_local)) =
     [SAVE_PROJECT_LOCALLY ''P'' (tests ex_project)]"
  by (simp add: ex_defs run_defs)

text \<open>
  C3, amended. If the user confirms with no box checked, nothing is applied: the handler
  returns normally, the open InfoMap and the project are unchanged, and what is sent is
  exactly \<open>saveRequest\<close>: nothing when the origin is not LOCAL, and with the origin LOCAL
  the one save request of the unchanged project.
\<close>

theorem confirm_nothing_selected:
  assumes "\<forall>b \<in> set boxes. \<not> checked b"
  shows "handleReplaceButton cm h boxes s =
           (None, handleCancelButton h (s\<lparr>sent := sent s @ saveRequest s\<rparr>)) \<and>
         this_infoMap (snd (handleReplaceButton cm h boxes s)) = this_infoMap s \<and>
         this_projectInfo (snd (handleReplaceButton cm h boxes s)) = this_projectInfo s \<and>
         sent (snd (handleReplaceButton cm h boxes s)) = sent s @ saveRequest s \<and>
         (\<not> isLocal s \<longrightarrow> sent (snd (handleReplaceButton cm h boxes s)) = sent s)"
  using handleReplaceButton_None[OF loop_unchecked[OF assms, of cm s], of h] saveRequest_web[of s]
  by (simp add: handleCancelButton_def)

text \<open>C3 amended, at the LOCAL and at the WEB project with one unchecked box.\<close>

theorem confirm_nothing_selected_witness:
  "\<not> checked (box False ''T1___s1'') \<and>
   this_infoMap (snd (handleReplaceButton ex_cmdMap 0 [box False ''T1___s1''] ex_local)) =
     this_infoMap ex_local \<and>
   this_projectInfo (snd (handleReplaceButton ex_cmdMap 0 [box False ''T1___s1''] ex_local)) =
     this_projectInfo ex_local \<and>
   sent (snd (handleReplaceButton ex_cmdMap 0 [box False ''T1___s1''] ex_local)) =
     sent ex_local @ saveRequest ex_local \<and>
   \<not> isLocal ex_web \<and>
   sent (snd (handleReplaceButton ex_cmdMap 0 [box False ''T1___s1''] ex_web)) = sent ex_web"
proof -
  have u: "\<forall>b \<in> set [box False ''T1___s1'']. \<not> checked b" by (simp add: box_def)
  have w: "\<not> isLocal ex_web" by (simp add: ex_defs run_defs)
  have c: "\<not> checked (box False ''T1___s1'')" by (simp add: box_def)
  from confirm_nothing_selected[OF u, of ex_cmdMap 0 ex_local] confirm_nothing_selected[OF u, of ex_cmdMap 0 ex_web] w c
  show ?thesis by blast
qed




text \<open>
  C5. Whatever the boxes and the outcome, the replace handler leaves every step record
  and the key sets of steps and elements as they were, in the open InfoMap and in every
  test of the project; an element is either untouched or, being the target of a checked
  box, has exactly its selectors, xpaths, descriptor and iframeInfo replaced by the
  command map's (its other fields are kept). When the handler returns normally, the
  element targeted by each checked box has been overwritten so.
\<close>

theorem applyUpdate_frame:
  "stateRebound cm boxes s (snd (handleReplaceButton cm h boxes s)) \<and>
   steps (this_infoMap (snd (handleReplaceButton cm h boxes s))) = steps (this_infoMap s) \<and>
   dom (elems (this_infoMap (snd (handleReplaceButton cm h boxes s)))) =
     dom (elems (this_infoMap s)) \<and>
   (\<forall>k. map_option otherFields (elems (this_infoMap (snd (handleReplaceButton cm h boxes s))) k) =
        map_option otherFields (elems (this_infoMap s) k)) \<and>
   (\<forall>b \<in> set boxes. checked b \<longrightarrow> fst (handleReplaceButton cm h boxes s) = None \<longrightarrow>
      (\<exists>im im' k e.
         infoMapFor s (value b) = Some im \<and>
         infoMapFor (snd (handleReplaceButton cm h boxes s)) (value b) = Some im' \<and>
         targetOf im (nameAndStep1 (value b)) = Some k \<and> elems im k = Some e \<and>
         elems im' k = Some (overwritten cm e)))"
proof -
  let ?s' = "snd (handleReplaceButton cm h boxes s)"
  have sr: "stateRebound cm boxes s ?s'" by (rule handleReplaceButton_stateRebound)
  then have r: "rebound cm (targets (this_infoMap s) (checkedSteps boxes))
       (this_infoMap s) (this_infoMap ?s')" by (simp add: stateRebound_def)
  have st: "steps (this_infoMap ?s') = steps (this_infoMap s)" using r by (simp add: rebound_def)
  have pos: "\<exists>im im' k e.
         infoMapFor s (value b) = Some im \<and> infoMapFor ?s' (value b) = Some im' \<and>
         targetOf im (nameAndStep1 (value b)) = Some k \<and> elems im k = Some e \<and>
         elems im' k = Some (overwritten cm e)"
    if "b \<in> set boxes" "checked b" "fst (handleReplaceButton cm h boxes s) = None" for b
  proof -
    from that(3) have "handleReplaceButton cm h boxes s = (None, ?s')"
      by (cases "handleReplaceButton cm h boxes s") simp
    from handleReplaceButton_overwrites[OF this that(1,2)] show ?thesis by blast
  qed
  from sr st rebound_dom[OF r] rebound_otherFields[OF r] pos show ?thesis by blast
qed

text \<open>C5, at the LOCAL project with the box of T2's step s2 checked.\<close>

theorem applyUpdate_frame_witness:
  "checked (box True ''T2___s2'') \<and>
   fst (handleReplaceButton ex_cmdMap 0 [box True ''T2___s2''] ex_local) = None \<and>
   stateRebound ex_cmdMap [box True ''T2___s2''] ex_local
     (snd (handleReplaceButton ex_cmdMap 0 [box True ''T2___s2''] ex_local)) \<and>
   (\<exists>im im' k e.
      infoMapFor ex_local ''T2___s2'' = Some im \<and>
      infoMapFor (snd (handleReplaceButton ex_cmdMap 0 [box True ''T2___s2''] ex_local)) ''T2___s2'' =
        Some im' \<and>
      targetOf im (nameAndStep1 ''T2___s2'') = Some k \<and> elems im k = Some e \<and>
      elems im' k = Some (overwritten ex_cmdMap e))"
proof -
  have n: "fst (handleReplaceButton ex_cmdMap 0 [box True ''T2___s2''] ex_local) = None"
    by (simp add: ex_defs run_defs)
  from applyUpdate_frame[of ex_cmdMap "[box True ''T2___s2'']" ex_local 0] n
  show ?thesis by (simp add: box_def)
qed

text \<open>
  C8 as stated fails: with no listener registered and nothing pending, the cancel handler
  is not a no-op, since it calls the \<open>onCancelHandler\<close> it is given, and it is not
  idempotent, since a second cancel calls it again.
\<close>

theorem cancel_not_a_noop:
  "this_updateAllHandler ex_web = [] \<and>
   calls ex_web = [] \<and>
   calls (handleCancelButton 0 ex_web) = [OnCancelHandler 0] \<and>
   calls (handleCancelButton 0 (handleCancelButton 0 ex_web)) =
     [OnCancelHandler 0, OnCancelHandler 0] \<and>
   handleCancelButton 0 ex_web \<noteq> ex_web \<and>
   handleCancelButton 0 (handleCancelButton 0 ex_web) \<noteq> handleCancelButton 0 ex_web"
proof -
  have a: "calls ex_web = []" "this_updateAllHandler ex_web = []"
    by (simp_all add: ex_web_def)
  have b: "calls (handleCancelButton 0 ex_web) = [OnCancelHandler 0]"
    by (simp add: handleCancelButton_def a)
  have c: "calls (handleCancelButton 0 (handleCancelButton 0 ex_web)) =
     [OnCancelHandler 0, OnCancelHandler 0]"
    by (simp add: handleCancelButton_def a)
  have d: "handleCancelButton 0 ex_web \<noteq> ex_web"
  proof
    assume "handleCancelButton 0 ex_web = ex_web"
    from arg_cong[OF this, of calls] a b show False by simp
  qed
  have e: "handleCancelButton 0 (handleCancelButton 0 ex_web) \<noteq> handleCancelButton 0 ex_web"
  proof
    assume "handleCancelButton 0 (handleCancelButton 0 ex_web) = handleCancelButton 0 ex_web"
    from arg_cong[OF this, of calls] b c show False by simp
  qed
  from a b c d e show ?thesis by blast
qed

text \<open>
  C8, amended. The cancel handler changes no InfoMap, no project and sends nothing: it
  calls the \<open>onCancelHandler\<close> it was given and removes all listeners of
  \<open>updateAllHandler_\<close>, those registered for the confirmation included; the console
  manager holds no pending match set of its own. With no listener registered its only
  effect is that call, and a second cancel changes nothing but to call the handler again.
\<close>

theorem cancel_frame:
  "this_infoMap (handleCancelButton h s) = this_infoMap s \<and>
   this_projectInfo (handleCancelButton h s) = this_projectInfo s \<and>
   sent (handleCancelButton h s) = sent s \<and>
   this_updateAllHandler (handleCancelButton h s) = [] \<and>
   calls (handleCancelButton h s) = calls s @ [OnCancelHandler h] \<and>
   this_updateAllHandler (handleCancelButton h (registerEventsOnSameElements cm h s)) = [] \<and>
   this_infoMap (handleCancelButton h (registerEventsOnSameElements cm h s)) = this_infoMap s \<and>
   this_projectInfo (handleCancelButton h (registerEventsOnSameElements cm h s)) =
     this_projectInfo s \<and>
   handleCancelButton h (s\<lparr>this_updateAllHandler := []\<rparr>) =
     s\<lparr>this_updateAllHandler := [], calls := calls s @ [OnCancelHandler h]\<rparr> \<and>
   (handleCancelButton h (handleCancelButton h s))\<lparr>calls := calls s\<rparr> =
     (handleCancelButton h s)\<lparr>calls := calls s\<rparr>"
  by (simp add: handleCancelButton_def registerEventsOnSameElements_def)

text \<open>
  C9. When the step at the editor line and its element exist in the open InfoMap,
  \<^verbatim>\<open>updateElementAtLine_\<close> overwrites that element with the command map before the
  search: with an origin other than LOCAL the search runs on the InfoMap as already
  updated, and the callback is called once with its matches, or not at all when it finds
  none or raises; with the origin LOCAL only the request for the test names is sent, the
  search being left to the reply. The function returns normally unless the search raises
  (which it does not when no step names an inherited property as its element). No
  listener is registered yet. A later cancel, or a later replace with no box checked,
  leaves the InfoMap as updated.
\<close>

theorem updateElementAtLine_rewrites_first:
  assumes "map_of (steps (this_infoMap s)) (getStepId (getTextAtLine line)) = Some st"
    and "elems (this_infoMap s) (js_key (elemId st)) = Some e"
  shows "\<exists>r s1. updateElementAtLine getTextAtLine getStepId line cm callback s = (r, s1) \<and>
           elems (this_infoMap s1) (js_key (elemId st)) = Some (overwritten cm e) \<and>
           steps (this_infoMap s1) = steps (this_infoMap s) \<and>
           this_updateAllHandler s1 = this_updateAllHandler s \<and>
           (\<not> searchRaises (this_infoMap s) \<longrightarrow> r = None) \<and>
           (\<not> isLocal s \<longrightarrow>
              sent s1 = sent s \<and>
              (case getStepsFromInfoMap (this_testName s) (this_infoMap s1) (index0 (xpaths e)) of
                 Inl err \<Rightarrow> r = Some err \<and> calls s1 = calls s
               | Inr data \<Rightarrow>
                   r = None \<and>
                   calls s1 = calls s @
                     (case data of
                        None \<Rightarrow> []
                      | Some d \<Rightarrow> [Callback callback (RegisterEventsOnSameElements cm)
                                     (ShowElementsWithSameXpath d WEB)]))) \<and>
           (isLocal s \<longrightarrow>
              r = None \<and> calls s1 = calls s \<and>
              sent s1 = sent s @
                [GET_TEST_NAMES_LOCALLY (projectName s)
                   (ShowElementsAfterProjectUpdated callback cm (index0 (xpaths e)))]) \<and>
           this_infoMap (handleCancelButton h s1) = this_infoMap s1 \<and>
           (\<forall>boxes. (\<forall>b \<in> set boxes. \<not> checked b) \<longrightarrow>
              this_infoMap (snd (handleReplaceButton cm h boxes s1)) = this_infoMap s1)"
proof -
  let ?k = "js_key (elemId st)"
  let ?im' = "(this_infoMap s)\<lparr>elems := (elems (this_infoMap s))(?k \<mapsto> overwritten cm e)\<rparr>"
  let ?s1 = "s\<lparr>this_infoMap := ?im'\<rparr>"
  have u: "updateElement (Some (getStepId (getTextAtLine line))) cm (this_infoMap s) =
      Inr (index0 (xpaths e), ?im')"
    using assms targetOf_own[OF assms(1)] by (simp add: updateElement_cases)
  have il: "isLocal ?s1 = isLocal s" by (simp add: isLocal_def)
  have sr: "searchRaises ?im' = searchRaises (this_infoMap s)"
    using searchRaises_rebound[OF updateElement_rebound[OF u]] .
  have nosel: "this_infoMap (snd (handleReplaceButton cm h boxes s1)) = this_infoMap s1"
    if "\<forall>b \<in> set boxes. \<not> checked b" for boxes s1
    using handleReplaceButton_None[OF loop_unchecked[OF that, of cm s1], of h]
    by (simp add: handleCancelButton_def)
  show ?thesis
  proof (cases "isLocal s")
    case True
    with u il nosel show ?thesis
      by (simp add: updateElementAtLine_def Let_def handleCancelButton_def)
  next
    case False
    show ?thesis
    proof (cases "getStepsFromInfoMap (this_testName s) ?im' (index0 (xpaths e))")
      case (Inl err)
      have "searchRaises (this_infoMap s)"
      proof (rule ccontr)
        assume "\<not> searchRaises (this_infoMap s)"
        with sr have "\<not> searchRaises ?im'" by simp
        from getStepsFromInfoMap_returns[OF this, of "this_testName s" "index0 (xpaths e)"] Inl
        show False by simp
      qed
      with Inl False u il nosel show ?thesis
        by (simp add: updateElementAtLine_def Let_def handleCancelButton_def)
    next
      case (Inr data)
      with False u il nosel show ?thesis
        by (cases data)
           (simp_all add: updateElementAtLine_def Let_def handleCancelButton_def
             showElementsWithSameXpath_def)
    qed
  qed
qed

text \<open>C9, at the open test T1 with line 3 holding the step s1.\<close>

theorem updateElementAtLine_rewrites_first_witness:
  "map_of (steps (this_infoMap ex_web)) (ex_getStepId (ex_getTextAtLine 3)) =
     Some \<lparr>stepName = ''click'', elemId = Some ''e1''\<rparr> \<and>
   elems (this_infoMap ex_web) ''e1'' = Some ex_elem \<and>
   \<not> searchRaises (this_infoMap ex_web) \<and>
   (\<exists>s1. updateElementAtLine ex_getTextAtLine ex_getStepId 3 ex_cmdMap 7 ex_web = (None, s1) \<and>
      elems (this_infoMap s1) ''e1'' = Some (overwritten ex_cmdMap ex_elem) \<and>
      this_infoMap (handleCancelButton 0 s1) = this_infoMap s1 \<and>
      this_infoMap (snd (handleReplaceButton ex_cmdMap 0 [box False ''T1___s3''] s1)) =
        this_infoMap s1)"
proof -
  have a: "map_of (steps (this_infoMap ex_web)) (ex_getStepId (ex_getTextAtLine 3)) =
     Some \<lparr>stepName = ''click'', elemId = Some ''e1''\<rparr>"
    by (simp add: ex_defs)
  have b: "elems (this_infoMap ex_web) (js_key (elemId \<lparr>stepName = ''click'', elemId = Some ''e1''\<rparr>)) =
     Some ex_elem"
    by (simp add: ex_defs js_key_def)
  have n: "\<not> searchRaises (this_infoMap ex_web)"
    by (simp add: ex_defs searchRaises_def js_get_def js_key_def objectPrototype_def)
  have u: "\<forall>b \<in> set [box False ''T1___s3'']. \<not> checked b" by (simp add: box_def)
  from updateElementAtLine_rewrites_first[where s = ex_web and getStepId = ex_getStepId
      and getTextAtLine = ex_getTextAtLine and line = 3 and cm = ex_cmdMap and callback = 7
      and h = 0, OF a b] n
  obtain s1 where s1:
    "updateElementAtLine ex_getTextAtLine ex_getStepId 3 ex_cmdMap 7 ex_web = (None, s1)"
    "elems (this_infoMap s1) (js_key (elemId \<lparr>stepName = ''click'', elemId = Some ''e1''\<rparr>)) =
       Some (overwritten ex_cmdMap ex_elem)"
    "this_infoMap (handleCancelButton 0 s1) = this_infoMap s1"
    "\<forall>boxes. (\<forall>b \<in> set boxes. \<not> checked b) \<longrightarrow>
       this_infoMap (snd (handleReplaceButton ex_cmdMap 0 boxes s1)) = this_infoMap s1"
    by blast
  from s1(4) u have "this_infoMap (snd (handleReplaceButton ex_cmdMap 0 [box False ''T1___s3''] s1)) =
        this_infoMap s1" by blast
  moreover from s1(2) have "elems (this_infoMap s1) ''e1'' = Some (overwritten ex_cmdMap ex_elem)"
    by (simp add: js_key_def)
  moreover from b have "elems (this_infoMap ex_web) ''e1'' = Some ex_elem" by (simp add: js_key_def)
  ultimately show ?thesis using a n s1(1,3) by blast
qed

text \<open>
  C10. The update is keyed by the element id: if the InfoMap addressed by a checked box
  has two distinct steps with the same element id and the box names the first, then
  after a normal return the second step is still the same step record and the element
  it resolves to carries the command map's locator.
\<close>

theorem applyUpdate_shared_element:
  assumes "handleReplaceButton cm h boxes s = (None, s')"
    and "b \<in> set boxes" and "checked b"
    and "infoMapFor s (value b) = Some im"
    and "nameAndStep1 (value b) = Some k1"
    and "map_of (steps im) k1 = Some st1" and "map_of (steps im) k2 = Some st2"
    and "k1 \<noteq> k2" and "elemId st1 = elemId st2"
  shows "\<exists>im' e. infoMapFor s' (value b) = Some im' \<and> map_of (steps im') k2 = Some st2 \<and>
           elems im (js_key (elemId st2)) = Some e \<and>
           elems im' (js_key (elemId st2)) = Some (overwritten cm e)"
proof -
  from handleReplaceButton_overwrites[OF assms(1-3)] assms(4) obtain im' k e where
    a: "infoMapFor s' (value b) = Some im'" "steps im' = steps im"
    "targetOf im (nameAndStep1 (value b)) = Some k" "elems im k = Some e"
    "elems im' k = Some (overwritten cm e)" by auto
  from a(3) assms(5,6,9) targetOf_own[OF assms(6)] have "k = js_key (elemId st2)" by simp
  with a assms(7) show ?thesis by simp
qed

text \<open>C10, at the open test T1, whose steps s1 and s3 share the element e1, with only s1 checked.\<close>

theorem applyUpdate_shared_element_witness:
  "map_of (steps ex_infoMap1) ''s1'' = Some \<lparr>stepName = ''click'', elemId = Some ''e1''\<rparr> \<and>
   map_of (steps ex_infoMap1) ''s3'' = Some \<lparr>stepName = ''type'', elemId = Some ''e1''\<rparr> \<and>
   (\<exists>im' e.
      infoMapFor (snd (handleReplaceButton ex_cmdMap 0 [box True ''T1___s1''] ex_web)) ''T1___s1'' =
        Some im' \<and>
      map_of (steps im') ''s3'' = Some \<lparr>stepName = ''type'', elemId = Some ''e1''\<rparr> \<and>
      elems ex_infoMap1 ''e1'' = Some e \<and>
      elems im' ''e1'' = Some (overwritten ex_cmdMap e))"
proof -
  let ?R = "handleReplaceButton ex_cmdMap 0 [box True ''T1___s1''] ex_web"
  have n: "?R = (None, snd ?R)" by (simp add: ex_defs run_defs)
  have i: "infoMapFor ex_web (value (box True ''T1___s1'')) = Some ex_infoMap1"
    by (simp add: ex_defs run_defs)
  have k: "nameAndStep1 (value (box True ''T1___s1'')) = Some ''s1''"
    by (simp add: ex_defs run_defs)
  have s1: "map_of (steps ex_infoMap1) ''s1'' = Some \<lparr>stepName = ''click'', elemId = Some ''e1''\<rparr>"
    and s3: "map_of (steps ex_infoMap1) ''s3'' = Some \<lparr>stepName = ''type'', elemId = Some ''e1''\<rparr>"
    by (simp_all add: ex_defs)
  from applyUpdate_shared_element[OF n _ _ i k s1 s3] s1 s3 show ?thesis
    by (simp add: box_def js_key_def)
qed

end
